theory Spec2Isabelle
  imports Complex_Main "HOL-Library.Char_ord" "HOL-Library.List_Lexorder"
begin

section \<open>Python values used by ovftools\<close>

text \<open>
  The module \<^verbatim>\<open>mx3tools/ovftools.py\<close> reads an OVF file opened in bytes mode. A file is
  the list of its bytes; an Isabelle \<open>char\<close> is one byte. A decoded header line is a
  \<open>string\<close> as well: header lines are ASCII in the OVF format, and \<open>decode\<close> below
  refuses a line that holds a byte above \<open>0x7F\<close>.
\<close>

type_synonym bytes = "char list"

text \<open>
  The exceptions the modelled code can end in. \<open>TypeError\<close> and \<open>IOError\<close> carry a message,
  \<open>KeyError\<close> and \<open>UnboundLocalError\<close> the key or name that was missing.
\<close>

datatype error =
    UnicodeDecodeError
  | IndexError
  | ValueError
  | KeyError string
  | OverflowError
  | StructError
  | TypeError string
  | IOError string
  | OSError
  | UnboundLocalError string
  | NotImplementedError

subsection \<open>Floats\<close>

text \<open>
  A Python \<open>float\<close> and an element of a numpy float array: a finite binary floating-point
  number, held as the rational it denotes, an infinity or a NaN. The two zeros are one
  value (\<open>Finite 0\<close>); they compare equal in Python.
\<close>

datatype pyfloat = Finite rat | PInf | NInf | NaN

definition pow2 :: "int \<Rightarrow> rat" where
  "pow2 e = (if 0 \<le> e then 2 ^ nat e else 1 / 2 ^ nat (- e))"

text \<open>Python's \<open>==\<close> on floats: a NaN equals nothing, itself included.\<close>

definition float_eq :: "pyfloat \<Rightarrow> pyfloat \<Rightarrow> bool" where
  "float_eq a b = (a \<noteq> NaN \<and> b \<noteq> NaN \<and> a = b)"

text \<open>The number of binary digits of a natural number.\<close>

fun nbits :: "nat \<Rightarrow> nat" where
  "nbits n = (if n = 0 then 0 else Suc (nbits (n div 2)))"

declare nbits.simps [simp del]

text \<open>\<open>ilog2 q\<close> is the exponent \<open>e\<close> with \<open>2 ^ e \<le> q < 2 ^ (e + 1)\<close>, for \<open>q > 0\<close>.\<close>

definition ilog2 :: "rat \<Rightarrow> int" where
  "ilog2 q = (case quotient_of q of (a, b) \<Rightarrow>
     (let e0 = int (nbits (nat a)) - int (nbits (nat b))
      in if pow2 e0 \<le> q then e0 else e0 - 1))"

definition round_even :: "rat \<Rightarrow> int" where
  "round_even q = (let f = \<lfloor>q\<rfloor>; r = q - of_int f
     in if r < 1 / 2 then f else if 1 / 2 < r then f + 1 else if even f then f else f + 1)"

text \<open>
  Rounding a rational to the nearest IEEE 754 binary64 number, ties to even: 53 significant
  bits, least exponent \<open>-1022\<close> (below it the numbers are subnormal, spaced \<open>2 ^ -1074\<close>
  apart), overflow to an infinity from \<open>2 ^ 1024\<close> on.
\<close>

definition round_double :: "rat \<Rightarrow> pyfloat" where
  "round_double q =
     (if q = 0 then Finite 0
      else let a = \<bar>q\<bar>;
               e = max (ilog2 a) (- 1022);
               u = pow2 (e - 52);
               r = of_int (round_even (a / u)) * u
           in if pow2 1024 \<le> r then (if 0 < q then PInf else NInf)
              else Finite (if 0 < q then r else - r))"

text \<open>The product of two floats, as numpy computes \<open>data * valuemultiplier\<close> on float64.\<close>

fun float_mul :: "pyfloat \<Rightarrow> pyfloat \<Rightarrow> pyfloat" where
  "float_mul (Finite a) (Finite b) = round_double (a * b)"
| "float_mul NaN _ = NaN"
| "float_mul _ NaN = NaN"
| "float_mul (Finite a) PInf = (if a = 0 then NaN else if 0 < a then PInf else NInf)"
| "float_mul (Finite a) NInf = (if a = 0 then NaN else if 0 < a then NInf else PInf)"
| "float_mul PInf (Finite b) = (if b = 0 then NaN else if 0 < b then PInf else NInf)"
| "float_mul NInf (Finite b) = (if b = 0 then NaN else if 0 < b then NInf else PInf)"
| "float_mul PInf PInf = PInf"
| "float_mul PInf NInf = NInf"
| "float_mul NInf PInf = NInf"
| "float_mul NInf NInf = PInf"

text \<open>\<open>int(x)\<close> on a float truncates towards zero and refuses infinities and NaN.\<close>

fun int_of_float :: "pyfloat \<Rightarrow> error + int" where
  "int_of_float (Finite q) = Inr (if 0 \<le> q then \<lfloor>q\<rfloor> else - \<lfloor>- q\<rfloor>)"
| "int_of_float PInf = Inl OverflowError"
| "int_of_float NInf = Inl OverflowError"
| "int_of_float NaN = Inl ValueError"

subsection \<open>IEEE 754 bit patterns\<close>

text \<open>
  \<open>ieee_value ew mw n\<close> is the float whose bit pattern is the number \<open>n\<close>, with \<open>ew\<close>
  exponent bits and \<open>mw\<close> fraction bits: \<open>8\<close> and \<open>23\<close> for a 4-byte float, \<open>11\<close> and
  \<open>52\<close> for an 8-byte double.
\<close>

definition ieee_value :: "nat \<Rightarrow> nat \<Rightarrow> nat \<Rightarrow> pyfloat" where
  "ieee_value ew mw n =
     (let m = n mod 2 ^ mw;
          e = (n div 2 ^ mw) mod 2 ^ ew;
          s = (n div 2 ^ (mw + ew)) mod 2;
          bias = 2 ^ (ew - 1) - 1
      in if e = 2 ^ ew - 1 then (if m \<noteq> 0 then NaN else if s = 0 then PInf else NInf)
         else let mag = (if e = 0 then of_nat m * pow2 (1 - int bias - int mw)
                         else of_nat (2 ^ mw + m) * pow2 (int e - int bias - int mw))
              in Finite (if s = 0 then mag else - mag))"

text \<open>A byte string read as a big-endian and as a little-endian number.\<close>

definition be_nat :: "bytes \<Rightarrow> nat" where
  "be_nat bs = foldl (\<lambda>a c. a * 256 + of_char c) 0 bs"

definition le_nat :: "bytes \<Rightarrow> nat" where
  "le_nat bs = be_nat (rev bs)"

text \<open>
  The four formats the module uses, as \<open>struct\<close> format strings and as numpy dtypes:
  \<open>>\<close> is big-endian, \<open><\<close> little-endian, \<open>f\<close> a 4-byte float, \<open>d\<close> an 8-byte double.
  \<open>calcsize\<close> is the size in bytes of one value, \<open>ieee_of_format\<close> the value that a byte
  string of that size holds.
\<close>

definition calcsize :: "string \<Rightarrow> nat option" where
  "calcsize fmt =
     (if fmt = ''>f'' \<or> fmt = ''<f'' then Some 4
      else if fmt = ''>d'' \<or> fmt = ''<d'' then Some 8
      else None)"

definition ieee_of_format :: "string \<Rightarrow> bytes \<Rightarrow> pyfloat" where
  "ieee_of_format fmt b =
     (if fmt = ''>f'' then ieee_value 8 23 (be_nat b)
      else if fmt = ''<f'' then ieee_value 8 23 (le_nat b)
      else if fmt = ''>d'' then ieee_value 11 52 (be_nat b)
      else ieee_value 11 52 (le_nat b))"

text \<open>\<open>struct.unpack(fmt, buffer)[0]\<close>: the buffer must have exactly the format's size.\<close>

definition struct_unpack :: "string \<Rightarrow> bytes \<Rightarrow> error + pyfloat" where
  "struct_unpack fmt buffer =
     (case calcsize fmt of
        None \<Rightarrow> Inl StructError
      | Some n \<Rightarrow> if length buffer = n then Inr (ieee_of_format fmt buffer) else Inl StructError)"

subsection \<open>Strings and byte strings\<close>

text \<open>
  \<open>bytes.strip()\<close> and \<open>bytes.split()\<close> treat the six ASCII whitespace bytes as blank, and
  so do \<open>float\<close> and \<open>int\<close> when they trim their argument. \<open>str.strip()\<close> and
  \<open>str.split()\<close> also take the four separators \<open>0x1C\<close> to \<open>0x1F\<close>, and the blanks of
  Unicode beyond ASCII.
\<close>

definition is_space_bytes :: "char \<Rightarrow> bool" where
  "is_space_bytes c = (let n = (of_char c :: nat) in (9 \<le> n \<and> n \<le> 13) \<or> n = 32)"

definition is_space_str :: "char \<Rightarrow> bool" where
  "is_space_str c = (let n = (of_char c :: nat) in (9 \<le> n \<and> n \<le> 13) \<or> (28 \<le> n \<and> n \<le> 32))"

definition strip_with :: "('a \<Rightarrow> bool) \<Rightarrow> 'a list \<Rightarrow> 'a list" where
  "strip_with sp s = rev (dropWhile sp (rev (dropWhile sp s)))"

text \<open>\<open>s.split()\<close> with no separator: the maximal runs of non-blank characters.\<close>

fun words_acc :: "('a \<Rightarrow> bool) \<Rightarrow> 'a list \<Rightarrow> 'a list \<Rightarrow> 'a list list" where
  "words_acc sp cur [] = (if cur = [] then [] else [rev cur])"
| "words_acc sp cur (c # cs) =
     (if sp c then (if cur = [] then words_acc sp [] cs else rev cur # words_acc sp [] cs)
      else words_acc sp (c # cur) cs)"

definition split_ws :: "('a \<Rightarrow> bool) \<Rightarrow> 'a list \<Rightarrow> 'a list list" where
  "split_ws sp s = words_acc sp [] s"

definition starts_with :: "string \<Rightarrow> string \<Rightarrow> bool" where
  "starts_with pre s = (take (length pre) s = pre)"

text \<open>\<open>sub in s\<close>: \<open>sub\<close> occurs in \<open>s\<close> as a contiguous substring.\<close>

fun py_in :: "string \<Rightarrow> string \<Rightarrow> bool" where
  "py_in sub [] = (sub = [])"
| "py_in sub (c # cs) = (starts_with sub (c # cs) \<or> py_in sub cs)"

text \<open>
  \<open>s.split(sep)\<close> and \<open>s.split(sep, maxsplit)\<close> for a non-empty separator: cut at each
  occurrence from the left, at most \<open>maxsplit\<close> times when a bound is given. \<open>cur\<close> holds
  the piece being read, reversed.
\<close>

fun split_acc :: "string \<Rightarrow> nat option \<Rightarrow> string \<Rightarrow> string \<Rightarrow> string list" where
  "split_acc sep k cur [] = [rev cur]"
| "split_acc sep k cur (c # cs) =
     (if k = Some 0 then [rev cur @ c # cs]
      else if sep \<noteq> [] \<and> starts_with sep (c # cs)
        then rev cur # split_acc sep (map_option (\<lambda>n. n - 1) k) [] (drop (length sep - 1) cs)
      else split_acc sep k (c # cur) cs)"

definition py_split :: "string \<Rightarrow> string \<Rightarrow> string list" where
  "py_split sep s = split_acc sep None [] s"

definition py_split_max :: "string \<Rightarrow> nat \<Rightarrow> string \<Rightarrow> string list" where
  "py_split_max sep k s = split_acc sep (Some k) [] s"

text \<open>\<open>xs[i]\<close>: a negative index counts from the end, an index out of range raises.\<close>

definition py_index :: "'a list \<Rightarrow> int \<Rightarrow> error + 'a" where
  "py_index xs i =
     (if 0 \<le> i \<and> i < int (length xs) then Inr (xs ! nat i)
      else if i < 0 \<and> - i \<le> int (length xs) then Inr (xs ! nat (int (length xs) + i))
      else Inl IndexError)"

subsection \<open>Text: UTF-8 and Unicode\<close>

text \<open>
  A \<open>str\<close> is held as the bytes of its UTF-8 encoding, so an ASCII \<open>str\<close> is its own
  characters. \<open>utf8_chars\<close> cuts a byte string into its characters, each the one to four
  bytes that encode it, and is \<open>None\<close> on bytes that are not valid UTF-8: a stray
  continuation byte, a sequence cut short, an overlong form, a surrogate, or a code point
  beyond \<open>0x10FFFF\<close>.
\<close>

definition is_ascii :: "string \<Rightarrow> bool" where
  "is_ascii s = list_all (\<lambda>c. (of_char c :: nat) < 128) s"

definition is_cont :: "char \<Rightarrow> bool" where
  "is_cont c = (let n = (of_char c :: nat) in 128 \<le> n \<and> n < 192)"

fun utf8_chars :: "bytes \<Rightarrow> string list option" where
  "utf8_chars [] = Some []"
| "utf8_chars (b # bs) =
     (let n = (of_char b :: nat) in
      if n < 128 then map_option (Cons [b]) (utf8_chars bs)
      else if 194 \<le> n \<and> n < 224 then
        (case bs of
           c1 # r \<Rightarrow> if is_cont c1 then map_option (Cons [b, c1]) (utf8_chars r) else None
         | _ \<Rightarrow> None)
      else if 224 \<le> n \<and> n < 240 then
        (case bs of
           c1 # c2 # r \<Rightarrow>
             if is_cont c1 \<and> is_cont c2
                \<and> (if n = 224 then 160 \<le> (of_char c1 :: nat)
                    else if n = 237 then (of_char c1 :: nat) < 160 else True)
             then map_option (Cons [b, c1, c2]) (utf8_chars r) else None
         | _ \<Rightarrow> None)
      else if 240 \<le> n \<and> n < 245 then
        (case bs of
           c1 # c2 # c3 # r \<Rightarrow>
             if is_cont c1 \<and> is_cont c2 \<and> is_cont c3
                \<and> (if n = 240 then 144 \<le> (of_char c1 :: nat)
                    else if n = 244 then (of_char c1 :: nat) < 144 else True)
             then map_option (Cons [b, c1, c2, c3]) (utf8_chars r) else None
         | _ \<Rightarrow> None)
      else None)"

text \<open>The code point that the bytes of one character encode.\<close>

fun codepoint :: "string \<Rightarrow> nat" where
  "codepoint [a] = of_char a"
| "codepoint [a, b] = (of_char a - 192) * 64 + (of_char b - 128)"
| "codepoint [a, b, c] = (of_char a - 224) * 4096 + (of_char b - 128) * 64 + (of_char c - 128)"
| "codepoint [a, b, c, d] =
     (of_char a - 240) * 262144 + (of_char b - 128) * 4096 + (of_char c - 128) * 64
       + (of_char d - 128)"
| "codepoint g = 0"

text \<open>
  The characters of a \<open>str\<close>. Every \<open>str\<close> that \<open>decode\<close> returns is UTF-8; any other byte
  string is taken byte by byte.
\<close>

definition chars_of :: "string \<Rightarrow> string list" where
  "chars_of s = (case utf8_chars s of None \<Rightarrow> map (\<lambda>c. [c]) s | Some gs \<Rightarrow> gs)"

text \<open>
  \<open>b.decode()\<close>: strict UTF-8. The decoded \<open>str\<close> is held as the same bytes.
\<close>

definition decode :: "bytes \<Rightarrow> error + string" where
  "decode b =
     (if is_ascii b then Inr b
      else (case utf8_chars b of None \<Rightarrow> Inl UnicodeDecodeError | Some gs \<Rightarrow> Inr b))"

text \<open>The code points for which \<open>str.isspace()\<close> holds.\<close>

definition is_unicode_space :: "nat \<Rightarrow> bool" where
  "is_unicode_space n =
     ((9 \<le> n \<and> n \<le> 13) \<or> (28 \<le> n \<and> n \<le> 32) \<or> n = 133 \<or> n = 160 \<or> n = 5760
      \<or> (8192 \<le> n \<and> n \<le> 8202) \<or> n = 8232 \<or> n = 8233 \<or> n = 8239 \<or> n = 8287 \<or> n = 12288)"

text \<open>
  The decimal digits of Unicode 14.0 (the table of CPython 3.11) come in runs of ten, from
  the digit zero to the digit nine; these are the code points of the zeros.
\<close>

definition decimal_zeros :: "nat list" where
  "decimal_zeros =
     [48, 1632, 1776, 1984, 2406, 2534, 2662, 2790, 2918, 3046, 3174, 3302, 3430, 3558, 3664,
      3792, 3872, 4160, 4240, 6112, 6160, 6470, 6608, 6784, 6800, 6992, 7088, 7232, 7248,
      42528, 43216, 43264, 43472, 43504, 43600, 44016, 65296, 66720, 68912, 69734, 69872,
      69942, 70096, 70384, 70736, 70864, 71248, 71360, 71472, 71904, 72016, 72784, 73040,
      73120, 92768, 92864, 93008, 120782, 120792, 120802, 120812, 120822, 123200, 123632,
      125264, 130032]"

definition unicode_decimal :: "nat \<Rightarrow> nat option" where
  "unicode_decimal cp =
     (case filter (\<lambda>z. z \<le> cp \<and> cp < z + 10) decimal_zeros of
        [] \<Rightarrow> None
      | z # other \<Rightarrow> Some (cp - z))"

text \<open>
  \<open>s.strip()\<close> and \<open>s.split()\<close> on a \<open>str\<close>. On an ASCII \<open>str\<close> every character is
  one byte.
\<close>

definition str_strip :: "string \<Rightarrow> string" where
  "str_strip s =
     (if is_ascii s then strip_with is_space_str s
      else concat (strip_with (\<lambda>g. is_unicode_space (codepoint g)) (chars_of s)))"

definition str_split :: "string \<Rightarrow> string list" where
  "str_split s =
     (if is_ascii s then split_ws is_space_str s
      else map concat (split_ws (\<lambda>g. is_unicode_space (codepoint g)) (chars_of s)))"

text \<open>
  What \<open>float\<close> and \<open>int\<close> parse for a \<open>str\<close>: an ASCII \<open>str\<close> as it is; in any other,
  every character from \<open>0x7F\<close> on is replaced, a blank by a space and a decimal digit by
  its ASCII digit, and the text ends with a question mark at the first character that is
  neither.
\<close>

fun to_ascii_number :: "string list \<Rightarrow> string" where
  "to_ascii_number [] = []"
| "to_ascii_number (g # gs) =
     (let cp = codepoint g in
      if cp < 127 then char_of cp # to_ascii_number gs
      else if is_unicode_space cp then CHR 0x20 # to_ascii_number gs
      else (case unicode_decimal cp of
              None \<Rightarrow> [CHR 0x3F]
            | Some d \<Rightarrow> char_of (48 + d) # to_ascii_number gs))"

definition number_text :: "string \<Rightarrow> string" where
  "number_text s = (if is_ascii s then s else to_ascii_number (chars_of s))"

subsection \<open>Reading numbers: \<open>float(s)\<close> and \<open>int(s)\<close>\<close>

definition is_digit :: "char \<Rightarrow> bool" where
  "is_digit c = (let n = (of_char c :: nat) in 48 \<le> n \<and> n \<le> 57)"

definition to_lower :: "char \<Rightarrow> char" where
  "to_lower c = (let n = (of_char c :: nat) in if 65 \<le> n \<and> n \<le> 90 then char_of (n + 32) else c)"

text \<open>
  A \<open>digitpart\<close> of Python's grammar: digits, with single underscores between digits.
  \<open>digitpart prev s\<close> splits \<open>s\<close> into the digits read and the rest; \<open>prev\<close> says that
  the character before was a digit, so that an underscore may follow.
\<close>

fun digitpart :: "bool \<Rightarrow> string \<Rightarrow> string \<times> string" where
  "digitpart prev [] = ([], [])"
| "digitpart prev (c # cs) =
     (if is_digit c then (case digitpart True cs of (ds, rest) \<Rightarrow> (c # ds, rest))
      else if c = CHR ''_'' \<and> prev \<and> (case cs of [] \<Rightarrow> False | d # _ \<Rightarrow> is_digit d)
        then digitpart False cs
      else ([], c # cs))"

definition digits_value :: "string \<Rightarrow> nat" where
  "digits_value ds = foldl (\<lambda>a c. 10 * a + (of_char c - 48)) 0 ds"

definition pow10 :: "int \<Rightarrow> rat" where
  "pow10 e = (if 0 \<le> e then 10 ^ nat e else 1 / 10 ^ nat (- e))"

text \<open>An optional sign: \<open>True\<close> for a minus.\<close>

definition take_sign :: "string \<Rightarrow> bool \<times> string" where
  "take_sign s = (case s of [] \<Rightarrow> (False, [])
     | c # cs \<Rightarrow> if c = CHR ''-'' then (True, cs) else if c = CHR ''+'' then (False, cs) else (False, s))"

text \<open>
  The exponent part after the mantissa, as the power of ten it stands for: nothing, or
  \<open>e\<close> or \<open>E\<close>, an optional sign and a \<open>digitpart\<close>, up to the end of the string.
\<close>

definition exponent_part :: "string \<Rightarrow> int option" where
  "exponent_part s = (case s of [] \<Rightarrow> Some 0
     | c # cs \<Rightarrow>
         if c = CHR ''e'' \<or> c = CHR ''E'' then
           (case take_sign cs of (neg, r) \<Rightarrow>
              (case digitpart False r of (ds, rest) \<Rightarrow>
                 if ds = [] \<or> rest \<noteq> [] then None
                 else Some (if neg then - int (digits_value ds) else int (digits_value ds))))
         else None)"

text \<open>
  \<open>float(s)\<close> for a string without surrounding blanks: a sign, then \<open>inf\<close>, \<open>infinity\<close> or
  \<open>nan\<close> in any case, or a decimal number with at least one digit before or after the
  point and an optional exponent. The decimal value is rounded to the nearest double.
\<close>

definition float_literal :: "string \<Rightarrow> error + pyfloat" where
  "float_literal s =
     (case take_sign s of (neg, body) \<Rightarrow>
        (let low = map to_lower body in
         if low = ''inf'' \<or> low = ''infinity'' then Inr (if neg then NInf else PInf)
         else if low = ''nan'' then Inr NaN
         else (case digitpart False body of (ip, r1) \<Rightarrow>
           (case (case r1 of [] \<Rightarrow> ([], r1)
                  | c # cs \<Rightarrow> if c = CHR ''.'' then digitpart False cs else ([], r1)) of (fp, r2) \<Rightarrow>
              if ip = [] \<and> fp = [] then Inl ValueError
              else (case exponent_part r2 of None \<Rightarrow> Inl ValueError
                | Some ex \<Rightarrow>
                    (let q = of_nat (digits_value (ip @ fp)) * pow10 (ex - int (length fp))
                     in Inr (round_double (if neg then - q else q))))))))"

text \<open>
  \<open>float\<close> on a \<open>str\<close> and on a \<open>bytes\<close> object: both strip the six ASCII blanks
  only, the first after the replacement of the characters beyond ASCII.
\<close>

definition float_of_str :: "string \<Rightarrow> error + pyfloat" where
  "float_of_str s = float_literal (strip_with is_space_bytes (number_text s))"

definition float_of_bytes :: "bytes \<Rightarrow> error + pyfloat" where
  "float_of_bytes b = float_literal (strip_with is_space_bytes b)"

text \<open>\<open>int(s)\<close> on a \<open>str\<close>, base ten: blanks, a sign, one \<open>digitpart\<close>.\<close>

definition int_of_str :: "string \<Rightarrow> error + int" where
  "int_of_str s =
     (case take_sign (strip_with is_space_bytes (number_text s)) of (neg, body) \<Rightarrow>
        (case digitpart False body of (ds, rest) \<Rightarrow>
           if ds = [] \<or> rest \<noteq> [] then Inl ValueError
           else Inr (if neg then - int (digits_value ds) else int (digits_value ds))))"

section \<open>The header reader\<close>

text \<open>Sequencing of steps that can raise: the first error ends the computation.\<close>

definition and_then :: "error + 'a \<Rightarrow> ('a \<Rightarrow> error + 'b) \<Rightarrow> error + 'b" where
  "and_then m f = (case m of Inl e \<Rightarrow> Inl e | Inr x \<Rightarrow> f x)"

text \<open>
  The file object: the bytes not yet read. \<open>readline\<close> returns the bytes up to and with the
  next newline, or all that is left; at the end of the file it returns the empty byte
  string. \<open>read(n)\<close> returns at most \<open>n\<close> bytes, everything for \<open>n = -1\<close>, and refuses
  any other negative size. The size is passed as a C \<open>ssize_t\<close> of 64 bits; an integer
  that does not fit raises \<open>OverflowError\<close>, and so does a size beyond the longest
  \<open>bytes\<close> object, which the reader allocates before it reads. Below that bound the
  allocation is taken to succeed.
\<close>

definition readline :: "bytes \<Rightarrow> bytes \<times> bytes" where
  "readline f =
     (case dropWhile (\<lambda>c. c \<noteq> CHR 0x0A) f of
        [] \<Rightarrow> (f, [])
      | n # rest \<Rightarrow> (takeWhile (\<lambda>c. c \<noteq> CHR 0x0A) f @ [n], rest))"

definition ssize_max :: int where
  "ssize_max = 2 ^ 63 - 1"

definition bytes_max :: int where
  "bytes_max = ssize_max - 33"

definition stream_read :: "int \<Rightarrow> bytes \<Rightarrow> error + bytes \<times> bytes" where
  "stream_read n f =
     (if n < - ssize_max - 1 \<or> ssize_max < n then Inl OverflowError
      else if n < - 1 then Inl ValueError
      else if n = - 1 then Inr (f, [])
      else if bytes_max < n then Inl OverflowError
      else Inr (take (nat n) f, drop (nat n) f))"

text \<open>
  The \<open>headers\<close> dictionary: its values are the integer defaults, floats, a string and
  the token list of the marker line.
\<close>

datatype hval = HInt int | HFloat pyfloat | HStr string | HList "string list"

type_synonym headers = "string \<rightharpoonup> hval"

definition initial_headers :: headers where
  "initial_headers =
     [''SimTime'' \<mapsto> HInt (- 1), ''Iteration'' \<mapsto> HInt (- 1), ''Stage'' \<mapsto> HInt (- 1),
      ''MIFSource'' \<mapsto> HStr []]"

definition header_keys :: "string list" where
  "header_keys =
     [''xbase'', ''ybase'', ''zbase'', ''xstepsize'', ''ystepsize'', ''zstepsize'',
      ''xnodes'', ''ynodes'', ''znodes'', ''valuemultiplier'']"

text \<open>
  The inner \<open>for key in [...]\<close> loop of \<open>_read_header\<close>: every key that occurs anywhere in
  the line stores \<open>float(line.split(': ')[1])\<close>.
\<close>

fun scan_keys :: "string list \<Rightarrow> string \<Rightarrow> headers \<Rightarrow> error + headers" where
  "scan_keys [] line h = Inr h"
| "scan_keys (key # ks) line h =
     (if py_in key line
      then and_then (py_index (py_split '': '' line) 1) (\<lambda>t.
           and_then (float_of_str t) (\<lambda>v.
           scan_keys ks line (h(key \<mapsto> HFloat v))))
      else scan_keys ks line h)"

text \<open>The \<open>if\<close>/\<open>elif\<close> chain for the provenance lines.\<close>

definition provenance :: "string \<Rightarrow> headers \<Rightarrow> error + headers" where
  "provenance line h =
     (if py_in ''Total simulation time'' line then
        and_then (py_index (py_split '':'' line) (- 1)) (\<lambda>t.
        and_then (py_index (str_split (str_strip t)) 0) (\<lambda>u.
        and_then (float_of_str (str_strip u)) (\<lambda>v.
        Inr (h(''SimTime'' \<mapsto> HFloat v)))))
      else if py_in ''Iteration'' line then
        and_then (py_index (py_split '':'' line) 2) (\<lambda>t.
        and_then (py_index (py_split '','' t) 0) (\<lambda>u.
        and_then (float_of_str (str_strip u)) (\<lambda>v.
        Inr (h(''Iteration'' \<mapsto> HFloat v)))))
      else if py_in ''Stage'' line then
        and_then (py_index (py_split '':'' line) 2) (\<lambda>t.
        and_then (py_index (py_split '','' t) 0) (\<lambda>u.
        and_then (float_of_str (str_strip u)) (\<lambda>v.
        Inr (h(''Stage'' \<mapsto> HFloat v)))))
      else if py_in ''MIF source file'' line then
        and_then (py_index (py_split_max '':'' 2 line) 2) (\<lambda>t.
        Inr (h(''MIFSource'' \<mapsto> HStr (str_strip t))))
      else Inr h)"

text \<open>
  One pass through the body of the \<open>while\<close> loop: read a line, strip it, decode it, and
  store what it holds. The result is the new dictionary, the new \<open>line\<close> and the file
  object after the read.
\<close>

definition header_step :: "headers \<Rightarrow> bytes \<Rightarrow> error + headers \<times> string \<times> bytes" where
  "header_step h f =
     (case readline f of (raw, f') \<Rightarrow>
        and_then (decode (strip_with is_space_bytes raw)) (\<lambda>line.
        and_then (scan_keys header_keys line h) (\<lambda>h1.
        and_then (provenance line h1) (\<lambda>h2.
        Inr (h2, line, f')))))"

text \<open>
  The loop \<open>while 'Begin: Data' not in line\<close>. It has no other exit than the marker and
  an exception, so it need not end: \<open>None\<close> is the run that never returns.
\<close>

partial_function (option) read_header_loop ::
  "headers \<Rightarrow> string \<Rightarrow> bytes \<Rightarrow> (error + headers \<times> bytes) option" where
  "read_header_loop h line f =
     (if py_in ''Begin: Data'' line
      then Some (Inr (h(''data_type'' \<mapsto> HList (str_split line)), f))
      else (case header_step h f of
              Inl e \<Rightarrow> Some (Inl e)
            | Inr (h', line', f') \<Rightarrow> read_header_loop h' line' f'))"

declare read_header_loop.simps [code]

definition read_header :: "bytes \<Rightarrow> (error + headers \<times> bytes) option" where
  "read_header fobj = read_header_loop initial_headers [] fobj"

section \<open>The endianness detector\<close>

text \<open>\<open>str(n)\<close> for an integer, as the f-string of the error message formats \<open>nbytes\<close>.\<close>

fun str_of_nat :: "nat \<Rightarrow> string" where
  "str_of_nat n =
     (if n < 10 then [char_of (48 + n)] else str_of_nat (n div 10) @ [char_of (48 + n mod 10)])"

declare str_of_nat.simps [simp del]

definition str_of_int :: "int \<Rightarrow> string" where
  "str_of_int i = (if i < 0 then CHR ''-'' # str_of_nat (nat (- i)) else str_of_nat (nat i))"

text \<open>The three dictionaries of \<open>_endianness\<close>, and \<open>d[k]\<close> on them.\<close>

definition big_endian :: "int \<rightharpoonup> string" where
  "big_endian = [4 \<mapsto> ''>f'', 8 \<mapsto> ''>d'']"

definition little_endian :: "int \<rightharpoonup> string" where
  "little_endian = [4 \<mapsto> ''<f'', 8 \<mapsto> ''<d'']"

definition magic_value :: "int \<rightharpoonup> pyfloat" where
  "magic_value = [4 \<mapsto> Finite 1234567, 8 \<mapsto> Finite 123456789012345]"

definition subscript :: "(int \<rightharpoonup> 'v) \<Rightarrow> int \<Rightarrow> error + 'v" where
  "subscript d k = (case d k of None \<Rightarrow> Inl (KeyError (str_of_int k)) | Some v \<Rightarrow> Inr v)"

text \<open>
  The builtin \<open>hex\<close> takes an integer. The source calls it on \<open>buffer\<close>, which is a
  \<open>bytes\<close> object: that call raises \<open>TypeError\<close> whatever the bytes are.
\<close>

definition hex_of_bytes :: "bytes \<Rightarrow> error + string" where
  "hex_of_bytes buffer = Inl (TypeError ''bytes object cannot be interpreted as an integer'')"

text \<open>
  \<open>_endianness(f, nbytes)\<close>: the result is the format string and the file object after
  the read.
\<close>

definition endianness :: "bytes \<Rightarrow> int \<Rightarrow> error + string \<times> bytes" where
  "endianness f nbytes =
     and_then (stream_read nbytes f) (\<lambda>(buffer, f').
     and_then (subscript big_endian nbytes) (\<lambda>be.
     and_then (struct_unpack be buffer) (\<lambda>x.
     and_then (subscript magic_value nbytes) (\<lambda>v.
     if float_eq x v then Inr (be, f')
     else
       and_then (subscript little_endian nbytes) (\<lambda>le.
       and_then (struct_unpack le buffer) (\<lambda>y.
       and_then (subscript magic_value nbytes) (\<lambda>v'.
       if float_eq y v' then Inr (le, f')
       else
         and_then (hex_of_bytes buffer) (\<lambda>hx.
         Inl (IOError (''Cannot decode '' @ str_of_int nbytes @ ''-byte order mark: '' @ hx))))))))))"

section \<open>Arrays\<close>

text \<open>
  A numpy array of floats: its shape and its elements in C order (the last index runs
  fastest).
\<close>

record ndarray =
  shape :: "nat list"
  elems :: "pyfloat list"

text \<open>The offset of an index tuple in C order.\<close>

fun flat_index :: "nat list \<Rightarrow> nat list \<Rightarrow> nat" where
  "flat_index [] idx = 0"
| "flat_index (d # ds) [] = 0"
| "flat_index (d # ds) (i # idx) = i * prod_list ds + flat_index ds idx"

text \<open>\<open>a[i0, ..., in]\<close> with one index for every axis: an element, or \<open>IndexError\<close>.\<close>

definition nd_get :: "ndarray \<Rightarrow> nat list \<Rightarrow> error + pyfloat" where
  "nd_get a idx =
     (if length idx = length (shape a) \<and> list_all2 (\<lambda>i d. i < d) idx (shape a)
      then Inr (elems a ! flat_index (shape a) idx)
      else Inl IndexError)"

text \<open>
  \<open>np.empty(shape)\<close>: the elements are whatever the memory holds; the model fills them
  with zeros. The text decoder writes every element before it returns.
\<close>

definition np_empty :: "int list \<Rightarrow> error + ndarray" where
  "np_empty dims =
     (if list_ex (\<lambda>d. d < 0) dims then Inl ValueError
      else Inr \<lparr>shape = map nat dims, elems = replicate (prod_list (map nat dims)) (Finite 0)\<rparr>)"

text \<open>\<open>data[k, j, i] = (a, b, c)\<close> on a four-axis array whose last axis has length three.\<close>

definition set_cell :: "ndarray \<Rightarrow> nat list \<Rightarrow> pyfloat \<times> pyfloat \<times> pyfloat \<Rightarrow> ndarray" where
  "set_cell data idx t =
     (case t of (a, b, c) \<Rightarrow>
        (let off = flat_index (shape data) idx
         in data\<lparr>elems := (elems data)[off := a, off + 1 := b, off + 2 := c]\<rparr>))"

text \<open>
  \<open>np.ndarray(shape=(n0, n1), dtype=dtype, buffer=buffer, offset=0, strides=(s0, s1))\<close>:
  a view of the buffer whose element \<open>(r, c)\<close> is the value of the \<open>dtype\<close> at byte
  \<open>r * s0 + c * s1\<close>. numpy refuses a negative dimension, and strides that reach
  outside the buffer.
\<close>

definition ndarray_of_buffer ::
  "int \<times> int \<Rightarrow> string \<Rightarrow> bytes \<Rightarrow> int \<times> int \<Rightarrow> error + ndarray" where
  "ndarray_of_buffer shp dtype buffer strides =
     (case shp of (n0, n1) \<Rightarrow> (case strides of (s0, s1) \<Rightarrow>
        (case calcsize dtype of
           None \<Rightarrow> Inl (TypeError ''data type not understood'')
         | Some item \<Rightarrow>
             if n0 < 0 \<or> n1 < 0 then Inl ValueError
             else if n0 = 0 \<or> n1 = 0 then Inr \<lparr>shape = [nat n0, nat n1], elems = []\<rparr>
             else if s0 < 0 \<or> s1 < 0
                     \<or> int (length buffer) < (n0 - 1) * s0 + (n1 - 1) * s1 + int item
               then Inl ValueError
             else Inr \<lparr>shape = [nat n0, nat n1],
                       elems = concat (map (\<lambda>r. map (\<lambda>c.
                                 ieee_of_format dtype (take item (drop (r * nat s0 + c * nat s1) buffer)))
                                 [0..<nat n1]) [0..<nat n0])\<rparr>)))"

text \<open>
  \<open>a.reshape(dims)\<close>: the same elements in the same C order under a new shape of the same
  size. One dimension may be \<open>-1\<close>, which numpy infers when it can.
\<close>

definition reshape :: "ndarray \<Rightarrow> int list \<Rightarrow> error + ndarray" where
  "reshape a dims =
     (let total = int (length (elems a));
          known = filter (\<lambda>d. d \<noteq> - 1) dims
      in if list_ex (\<lambda>d. d < - 1) dims then Inl ValueError
         else if length known + 1 < length dims then Inl ValueError
         else if length known = length dims then
           (if prod_list dims = total then Inr \<lparr>shape = map nat dims, elems = elems a\<rparr>
            else Inl ValueError)
         else (let p = prod_list known
               in if p = 0 \<or> total mod p \<noteq> 0 then Inl ValueError
                  else Inr \<lparr>shape = map (\<lambda>d. if d = - 1 then nat (total div p) else nat d) dims,
                            elems = elems a\<rparr>))"

text \<open>
  \<open>data * m\<close> for the value \<open>m\<close> that \<open>headers.get('valuemultiplier', 1)\<close> gives: every
  element times \<open>m\<close>, in double precision.
\<close>

definition times_scalar :: "ndarray \<Rightarrow> hval \<Rightarrow> error + ndarray" where
  "times_scalar data m =
     (case m of
        HFloat v \<Rightarrow> Inr (data\<lparr>elems := map (\<lambda>x. float_mul x v) (elems data)\<rparr>)
      | HInt i \<Rightarrow> Inr (data\<lparr>elems := map (\<lambda>x. float_mul x (round_double (of_int i))) (elems data)\<rparr>)
      | HStr s \<Rightarrow> Inl (TypeError ''ufunc multiply'')
      | HList l \<Rightarrow> Inl (TypeError ''ufunc multiply''))"

section \<open>The data decoders\<close>

text \<open>\<open>int(headers[key])\<close>: the key must be there, and its value convert to an integer.\<close>

definition int_of_hval :: "hval \<Rightarrow> error + int" where
  "int_of_hval v =
     (case v of
        HInt i \<Rightarrow> Inr i
      | HFloat x \<Rightarrow> int_of_float x
      | HStr s \<Rightarrow> int_of_str s
      | HList l \<Rightarrow> Inl (TypeError ''int() argument must be a string or a number''))"

definition header_int :: "headers \<Rightarrow> string \<Rightarrow> error + int" where
  "header_int h key = (case h key of None \<Rightarrow> Inl (KeyError key) | Some v \<Rightarrow> int_of_hval v)"

text \<open>\<open>headers.get('valuemultiplier', 1)\<close>.\<close>

definition get_valuemultiplier :: "headers \<Rightarrow> hval" where
  "get_valuemultiplier h = (case h ''valuemultiplier'' of None \<Rightarrow> HInt 1 | Some v \<Rightarrow> v)"

text \<open>
  A \<open>for\<close> loop over a range whose body can raise: the body's state is threaded through,
  and the first error ends the loop.
\<close>

fun for_range :: "nat list \<Rightarrow> (nat \<Rightarrow> 's \<Rightarrow> error + 's) \<Rightarrow> 's \<Rightarrow> error + 's" where
  "for_range [] body s = Inr s"
| "for_range (i # rest) body s = and_then (body i s) (for_range rest body)"

text \<open>
  The body of the innermost loop of \<open>_text_decode\<close>: one line of the file gives the three
  components of cell \<open>(k, j, i)\<close>. The state is the array and the file object.
\<close>

definition text_cell :: "nat \<Rightarrow> nat \<Rightarrow> nat \<Rightarrow> ndarray \<times> bytes \<Rightarrow> error + ndarray \<times> bytes" where
  "text_cell k j i s =
     (case s of (data, f) \<Rightarrow> (case readline f of (raw, f') \<Rightarrow>
        (let text = split_ws is_space_bytes (strip_with is_space_bytes raw)
         in and_then (py_index text 0) (\<lambda>t0. and_then (float_of_bytes t0) (\<lambda>a.
            and_then (py_index text 1) (\<lambda>t1. and_then (float_of_bytes t1) (\<lambda>b.
            and_then (py_index text 2) (\<lambda>t2. and_then (float_of_bytes t2) (\<lambda>c.
            Inr (set_cell data [k, j, i] (a, b, c), f'))))))))))"

definition text_decode :: "bytes \<Rightarrow> headers \<Rightarrow> error + ndarray" where
  "text_decode f h =
     and_then (header_int h ''znodes'') (\<lambda>zs.
     and_then (header_int h ''ynodes'') (\<lambda>ys.
     and_then (header_int h ''xnodes'') (\<lambda>xs.
     and_then (np_empty [zs, ys, xs, 3]) (\<lambda>data.
     and_then (for_range [0..<nat zs] (\<lambda>k.
               for_range [0..<nat ys] (\<lambda>j.
               for_range [0..<nat xs] (\<lambda>i. text_cell k j i))) (data, f)) (\<lambda>(data', f').
     times_scalar data' (get_valuemultiplier h))))))"

text \<open>
  \<open>_fast_binary_decode\<close>: one read of the whole payload, one strided view of it as rows of
  three values, one reshape. The value multiplier is not looked at.
\<close>

definition fast_binary_decode :: "bytes \<Rightarrow> int \<Rightarrow> headers \<Rightarrow> string \<Rightarrow> error + ndarray" where
  "fast_binary_decode f chunk_size h dtype =
     and_then (header_int h ''xnodes'') (\<lambda>xs.
     and_then (header_int h ''ynodes'') (\<lambda>ys.
     and_then (header_int h ''znodes'') (\<lambda>zs.
     and_then (stream_read (xs * ys * zs * 3 * chunk_size) f) (\<lambda>(buffer, f').
     and_then (ndarray_of_buffer (xs * ys * zs, 3) dtype buffer (3 * chunk_size, chunk_size)) (\<lambda>ret.
     reshape ret [zs, ys, xs, 3])))))"

definition fast_binary_decode_scalars :: "bytes \<Rightarrow> int \<Rightarrow> headers \<Rightarrow> string \<Rightarrow> error + ndarray" where
  "fast_binary_decode_scalars f chunk_size h dtype =
     and_then (header_int h ''xnodes'') (\<lambda>xs.
     and_then (header_int h ''ynodes'') (\<lambda>ys.
     and_then (header_int h ''znodes'') (\<lambda>zs.
     and_then (stream_read (xs * ys * zs * chunk_size) f) (\<lambda>(buffer, f').
     and_then (ndarray_of_buffer (xs * ys * zs, 1) dtype buffer (chunk_size, chunk_size)) (\<lambda>ret.
     reshape ret [zs, ys, xs])))))"

section \<open>Decoding a file\<close>

text \<open>\<open>headers['data_type'][i]\<close>.\<close>

definition data_type_token :: "headers \<Rightarrow> int \<Rightarrow> error + string" where
  "data_type_token h i =
     (case h ''data_type'' of
        None \<Rightarrow> Inl (KeyError ''data_type'')
      | Some (HList toks) \<Rightarrow> py_index toks i
      | Some (HStr s) \<Rightarrow> and_then (py_index s i) (\<lambda>c. Inr [c])
      | Some (HInt n) \<Rightarrow> Inl (TypeError ''object is not subscriptable'')
      | Some (HFloat x) \<Rightarrow> Inl (TypeError ''object is not subscriptable''))"

text \<open>What a call returns: an array, or \<open>None\<close> when the function body ends without a \<open>return\<close>.\<close>

datatype pyobj = PNone | PArray ndarray

text \<open>
  The body of \<open>unpack\<close> after \<open>_read_header\<close>: the \<open>if\<close>/\<open>elif\<close> on the encoding token has
  no \<open>else\<close>.
\<close>

definition unpack_body :: "headers \<Rightarrow> bytes \<Rightarrow> error + pyobj" where
  "unpack_body h f =
     and_then (data_type_token h 3) (\<lambda>enc.
     if enc = ''Text'' then and_then (text_decode f h) (\<lambda>a. Inr (PArray a))
     else
       and_then (data_type_token h 3) (\<lambda>enc'.
       if enc' = ''Binary'' then
         and_then (data_type_token h 4) (\<lambda>tok.
         and_then (int_of_str tok) (\<lambda>chunk_size.
         and_then (endianness f chunk_size) (\<lambda>(dtype, f').
         and_then (fast_binary_decode f' chunk_size h dtype) (\<lambda>a. Inr (PArray a)))))
       else Inr PNone))"

text \<open>The body of \<open>unpack_scalars\<close> after \<open>_read_header\<close>.\<close>

definition unpack_scalars_body :: "headers \<Rightarrow> bytes \<Rightarrow> error + pyobj" where
  "unpack_scalars_body h f =
     and_then (data_type_token h 3) (\<lambda>enc.
     if enc = ''Binary'' then
       and_then (data_type_token h 4) (\<lambda>tok.
       and_then (int_of_str tok) (\<lambda>chunk_size.
       and_then (endianness f chunk_size) (\<lambda>(dtype, f').
       and_then (fast_binary_decode_scalars f' chunk_size h dtype) (\<lambda>a. Inr (PArray a)))))
     else Inl NotImplementedError)"

text \<open>A whole file through the header reader and a body. \<open>None\<close>: the header loop never ends.\<close>

definition decode_file ::
  "(headers \<Rightarrow> bytes \<Rightarrow> error + pyobj) \<Rightarrow> bytes \<Rightarrow> (error + pyobj) option" where
  "decode_file body fobj =
     (case read_header fobj of
        None \<Rightarrow> None
      | Some (Inl e) \<Rightarrow> Some (Inl e)
      | Some (Inr (h, f)) \<Rightarrow> Some (body h f))"

subsection \<open>Paths and the file system\<close>

text \<open>
  A path is the list of its components. The file system gives the names in a directory,
  in no particular order (none for what is not a directory), and the bytes of a file that
  can be opened for reading.
\<close>

type_synonym path = "string list"

record filesystem =
  listdir :: "path \<Rightarrow> string list"
  contents :: "path \<rightharpoonup> bytes"

text \<open>
  Modelled from the spec: \<open>ioutil.pathize\<close>, the path-normalization utility, which is not
  among the sources. It turns its argument into a path object; the model's arguments are
  paths already.
\<close>

definition pathize :: "path \<Rightarrow> path" where
  "pathize p = p"

definition path_name :: "path \<Rightarrow> string" where
  "path_name p = (if p = [] then [] else last p)"

definition path_parent :: "path \<Rightarrow> path" where
  "path_parent p = butlast p"

text \<open>\<open>name.rfind('.')\<close>: the position of the last dot, \<open>-1\<close> when there is none.\<close>

definition rfind_dot :: "string \<Rightarrow> int" where
  "rfind_dot name =
     (case dropWhile (\<lambda>c. c \<noteq> CHR ''.'') (rev name) of
        [] \<Rightarrow> - 1
      | d # front \<Rightarrow> int (length front))"

text \<open>\<open>path.suffix\<close> of pathlib: from the last dot of the name on, when that dot is neither
  the first nor the last character.\<close>

definition path_suffix :: "path \<Rightarrow> string" where
  "path_suffix p =
     (let name = path_name p; i = rfind_dot name
      in if 0 < i \<and> i < int (length name) - 1 then drop (nat i) name else [])"

text \<open>The pattern \<open>m*.ovf\<close>: an \<open>m\<close>, anything, then \<open>.ovf\<close>.\<close>

definition matches_m_ovf :: "string \<Rightarrow> bool" where
  "matches_m_ovf name =
     (5 \<le> length name \<and> starts_with ''m'' name \<and> drop (length name - 4) name = ''.ovf'')"

definition glob_m_ovf :: "filesystem \<Rightarrow> path \<Rightarrow> path list" where
  "glob_m_ovf fs dir = map (\<lambda>n. dir @ [n]) (filter matches_m_ovf (listdir fs dir))"

definition unpack :: "filesystem \<Rightarrow> path \<Rightarrow> (error + pyobj) option" where
  "unpack fs p =
     (case contents fs (pathize p) of
        None \<Rightarrow> Some (Inl OSError)
      | Some fobj \<Rightarrow> decode_file unpack_body fobj)"

definition unpack_scalars :: "filesystem \<Rightarrow> path \<Rightarrow> (error + pyobj) option" where
  "unpack_scalars fs p =
     (case contents fs (pathize p) of
        None \<Rightarrow> Some (Inl OSError)
      | Some fobj \<Rightarrow> decode_file unpack_scalars_body fobj)"

section \<open>The group sequencer\<close>

text \<open>The list comprehension \<open>[unpack(f) for f in files]\<close>: in order, up to the first failure.\<close>

fun unpack_all :: "filesystem \<Rightarrow> path list \<Rightarrow> (error + pyobj list) option" where
  "unpack_all fs [] = Some (Inr [])"
| "unpack_all fs (p # ps) =
     (case unpack fs p of
        None \<Rightarrow> None
      | Some (Inl e) \<Rightarrow> Some (Inl e)
      | Some (Inr x) \<Rightarrow>
          (case unpack_all fs ps of
             None \<Rightarrow> None
           | Some (Inl e) \<Rightarrow> Some (Inl e)
           | Some (Inr xs) \<Rightarrow> Some (Inr (x # xs))))"

text \<open>
  \<open>np.array(list)\<close> on the list of results. Arrays of one common shape are stacked along a
  new leading axis; the empty list gives the empty one-axis array; \<open>None\<close> objects alone
  give an array of objects. numpy refuses a list whose members do not fit one shape
  (\<open>ValueError\<close>; numpy before 1.24 built an array of objects instead when the leading
  dimensions of the members differ, and refused the others as now).
\<close>

datatype series = FloatArray ndarray | ObjectArray "pyobj list"

fun array_of :: "pyobj \<Rightarrow> ndarray option" where
  "array_of PNone = None"
| "array_of (PArray a) = Some a"

definition np_array :: "pyobj list \<Rightarrow> error + series" where
  "np_array objs =
     (case objs of
        [] \<Rightarrow> Inr (FloatArray \<lparr>shape = [0], elems = []\<rparr>)
      | x # rest \<Rightarrow>
          (case array_of x of
             None \<Rightarrow> if list_all (\<lambda>y. y = PNone) rest then Inr (ObjectArray objs) else Inl ValueError
           | Some a \<Rightarrow>
               if list_all (\<lambda>y. map_option shape (array_of y) = Some (shape a)) rest
               then Inr (FloatArray \<lparr>shape = length objs # shape a,
                                     elems = concat (map (\<lambda>y. case array_of y of None \<Rightarrow> [] | Some b \<Rightarrow> elems b) objs)\<rparr>)
               else Inl ValueError))"

text \<open>
  \<open>group_unpack\<close>: \<open>files\<close> is assigned in the two branches on the suffix only, so it is
  unbound on any other path when the last line reads it. \<open>tqdm.tqdm(files)\<close> yields the
  members of \<open>files\<close> in order and reports progress; it has no part in the result.
\<close>

definition group_unpack :: "filesystem \<Rightarrow> path \<Rightarrow> (error + series) option" where
  "group_unpack fs p =
     (let path = pathize p;
          files = (if path_suffix path = ''.out'' then Some (sort (glob_m_ovf fs path))
                   else if path_suffix path = ''.ovf'' then Some (sort (glob_m_ovf fs (path_parent path)))
                   else None)
      in case files of
           None \<Rightarrow> Some (Inl (UnboundLocalError ''files''))
         | Some fl \<Rightarrow>
             (case unpack_all fs fl of
                None \<Rightarrow> None
              | Some (Inl e) \<Rightarrow> Some (Inl e)
              | Some (Inr objs) \<Rightarrow> Some (np_array objs)))"

section \<open>Example files\<close>

text \<open>
  The control mark for 4-byte values is the float \<open>1234567.0\<close>, whose bit pattern is
  \<open>0x4996B438\<close>; a little-endian writer stores it lowest byte first.
\<close>

definition mark4_be :: bytes where
  "mark4_be = [CHR 0x49, CHR 0x96, CHR 0xB4, CHR 0x38]"

definition mark4_le :: bytes where
  "mark4_le = [CHR 0x38, CHR 0xB4, CHR 0x96, CHR 0x49]"

text \<open>
  The control mark for 8-byte values is the double \<open>123456789012345.0\<close>, with the bit
  pattern \<open>0x42DC12218377DE40\<close>.
\<close>

definition mark8_be :: bytes where
  "mark8_be = [CHR 0x42, CHR 0xDC, CHR 0x12, CHR 0x21, CHR 0x83, CHR 0x77, CHR 0xDE, CHR 0x40]"

definition mark8_le :: bytes where
  "mark8_le = [CHR 0x40, CHR 0xDE, CHR 0x77, CHR 0x83, CHR 0x21, CHR 0x12, CHR 0xDC, CHR 0x42]"

text \<open>The floats \<open>1.0\<close> to \<open>6.0\<close> as little-endian 4-byte values.\<close>

definition payload_1_to_6 :: bytes where
  "payload_1_to_6 =
     [CHR 0x00, CHR 0x00, CHR 0x80, CHR 0x3F,  CHR 0x00, CHR 0x00, CHR 0x00, CHR 0x40,
      CHR 0x00, CHR 0x00, CHR 0x40, CHR 0x40,  CHR 0x00, CHR 0x00, CHR 0x80, CHR 0x40,
      CHR 0x00, CHR 0x00, CHR 0xA0, CHR 0x40,  CHR 0x00, CHR 0x00, CHR 0xC0, CHR 0x40]"

text \<open>
  The spec's example: two cells in a row, 4-byte little-endian values \<open>1\<close> to \<open>6\<close>. The
  second file is the same with a value multiplier of two in its header.
\<close>

definition example_binary :: bytes where
  "example_binary =
     ''# xnodes: 2\<newline># ynodes: 1\<newline># znodes: 1\<newline># Begin: Data Binary 4\<newline>''
     @ mark4_le @ payload_1_to_6"

definition example_binary_x2 :: bytes where
  "example_binary_x2 =
     ''# xnodes: 2\<newline># ynodes: 1\<newline># znodes: 1\<newline># valuemultiplier: 2\<newline># Begin: Data Binary 4\<newline>''
     @ mark4_le @ payload_1_to_6"

text \<open>One cell holding \<open>(1, 2, 3)\<close> with a value multiplier of two, as binary and as text.\<close>

definition cell_binary_x2 :: bytes where
  "cell_binary_x2 =
     ''# xnodes: 1\<newline># ynodes: 1\<newline># znodes: 1\<newline># valuemultiplier: 2\<newline># Begin: Data Binary 4\<newline>''
     @ mark4_le @ take 12 payload_1_to_6"

definition cell_text_x2 :: bytes where
  "cell_text_x2 =
     ''# xnodes: 1\<newline># ynodes: 1\<newline># znodes: 1\<newline># valuemultiplier: 2\<newline># Begin: Data Text\<newline>1 2 3\<newline>''"

text \<open>One cell, and a row of two cells, without a value multiplier.\<close>

definition cell_binary :: bytes where
  "cell_binary =
     ''# xnodes: 1\<newline># ynodes: 1\<newline># znodes: 1\<newline># Begin: Data Binary 4\<newline>''
     @ mark4_le @ take 12 payload_1_to_6"

text \<open>One cell of a scalar field holding \<open>1\<close>, with a value multiplier of two.\<close>

definition scalar_binary_x2 :: bytes where
  "scalar_binary_x2 =
     ''# xnodes: 1\<newline># ynodes: 1\<newline># znodes: 1\<newline># valuemultiplier: 2\<newline># Begin: Data Binary 4\<newline>''
     @ mark4_le @ take 4 payload_1_to_6"

text \<open>A file whose marker line names an encoding that is neither \<open>Text\<close> nor \<open>Binary\<close>.\<close>

definition unknown_encoding :: bytes where
  "unknown_encoding = ''# xnodes: 1\<newline># ynodes: 1\<newline># znodes: 1\<newline># Begin: Data Hex 4\<newline>00''"

text \<open>A header that stops before the marker.\<close>

definition truncated_header :: bytes where
  "truncated_header = ''# OOMMF OVF 2.0\<newline># xnodes: 2\<newline># ynodes: 1\<newline>''"

text \<open>File systems: nothing at all; a directory \<open>run.out\<close> with the given files.\<close>

definition empty_fs :: filesystem where
  "empty_fs = \<lparr>listdir = (\<lambda>p. []), contents = (\<lambda>p. None)\<rparr>"

definition run_dir :: "(string \<times> bytes) list \<Rightarrow> filesystem" where
  "run_dir files =
     \<lparr>listdir = (\<lambda>p. if p = [''run.out''] then map fst files else []),
      contents = (\<lambda>p. case p of [d, n] \<Rightarrow> (if d = ''run.out'' then map_of files n else None) | _ \<Rightarrow> None)\<rparr>"





text \<open>
  The lines that \<open>readline\<close> will return hold the marker somewhere: the condition under
  which the header loop can see it. Every \<open>readline\<close> on a file that is not at its end
  takes at least one byte, which makes the recursion end.
\<close>

lemma readline_shorter: "f \<noteq> [] \<Longrightarrow> readline f = (raw, f') \<Longrightarrow> length f' < length f"
proof -
  assume ne: "f \<noteq> []" and rl: "readline f = (raw, f')"
  have le: "length (dropWhile (\<lambda>c. c \<noteq> CHR 0x0A) f) \<le> length f"
    by (rule length_dropWhile_le)
  show ?thesis
  proof (cases "dropWhile (\<lambda>c. c \<noteq> CHR 0x0A) f")
    case Nil
    with rl have "f' = []" by (simp add: readline_def)
    with ne show ?thesis by simp
  next
    case (Cons n rest)
    with rl have "f' = rest" by (simp add: readline_def)
    with Cons le show ?thesis by simp
  qed
qed

function marker_ahead :: "bytes \<Rightarrow> bool" where
  "marker_ahead f =
     (if f = [] then False
      else (case readline f of (raw, f') \<Rightarrow>
              py_in ''Begin: Data'' (strip_with is_space_bytes raw) \<or> marker_ahead f'))"
  by pat_completeness auto
termination
  by (relation "measure length") (auto simp: readline_shorter [OF _ sym])

declare marker_ahead.simps [simp del]

section \<open>Evaluating the model on concrete files\<close>

text \<open>
  The definitions that the simplifier unfolds to run the model on a concrete file. The
  bit-level definitions of the floats stay folded: the values needed are proved once, below.
\<close>

named_theorems ovf_eval

declare
  round_double_def [ovf_eval] ilog2_def [ovf_eval] nbits.simps [ovf_eval] pow2_def [ovf_eval]
  round_even_def [ovf_eval] Let_def [ovf_eval]
  float_of_str_def [ovf_eval] float_of_bytes_def [ovf_eval] float_literal_def [ovf_eval]
  strip_with_def [ovf_eval] is_space_str_def [ovf_eval] is_space_bytes_def [ovf_eval]
  take_sign_def [ovf_eval] to_lower_def [ovf_eval] is_digit_def [ovf_eval]
  exponent_part_def [ovf_eval] digits_value_def [ovf_eval] pow10_def [ovf_eval]
  int_of_str_def [ovf_eval] split_ws_def [ovf_eval] starts_with_def [ovf_eval]
  py_split_def [ovf_eval] py_split_max_def [ovf_eval] py_index_def [ovf_eval] decode_def [ovf_eval]
  is_ascii_def [ovf_eval] str_strip_def [ovf_eval] str_split_def [ovf_eval]
  number_text_def [ovf_eval] ssize_max_def [ovf_eval] bytes_max_def [ovf_eval]
  and_then_def [ovf_eval] readline_def [ovf_eval] stream_read_def [ovf_eval]
  initial_headers_def [ovf_eval] header_keys_def [ovf_eval] provenance_def [ovf_eval]
  header_step_def [ovf_eval] read_header_def [ovf_eval]
  calcsize_def [ovf_eval] struct_unpack_def [ovf_eval] upt_conv_Cons [ovf_eval]
  str_of_nat.simps [ovf_eval] str_of_int_def [ovf_eval] big_endian_def [ovf_eval]
  little_endian_def [ovf_eval] magic_value_def [ovf_eval] subscript_def [ovf_eval]
  hex_of_bytes_def [ovf_eval]
  nd_get_def [ovf_eval] np_empty_def [ovf_eval] set_cell_def [ovf_eval]
  ndarray_of_buffer_def [ovf_eval] reshape_def [ovf_eval] times_scalar_def [ovf_eval]
  int_of_hval_def [ovf_eval] header_int_def [ovf_eval] get_valuemultiplier_def [ovf_eval]
  text_cell_def [ovf_eval] text_decode_def [ovf_eval] fast_binary_decode_def [ovf_eval]
  fast_binary_decode_scalars_def [ovf_eval] data_type_token_def [ovf_eval]
  unpack_body_def [ovf_eval] unpack_scalars_body_def [ovf_eval] decode_file_def [ovf_eval]
  pathize_def [ovf_eval] path_name_def [ovf_eval] path_parent_def [ovf_eval]
  rfind_dot_def [ovf_eval] path_suffix_def [ovf_eval] matches_m_ovf_def [ovf_eval]
  glob_m_ovf_def [ovf_eval] unpack_def [ovf_eval] unpack_scalars_def [ovf_eval]
  np_array_def [ovf_eval] group_unpack_def [ovf_eval]
  mark4_be_def [ovf_eval] mark4_le_def [ovf_eval] payload_1_to_6_def [ovf_eval]
  empty_fs_def [ovf_eval] run_dir_def [ovf_eval]

lemma replicate_numeral_eval [ovf_eval]:
  "replicate (numeral k) x = x # replicate (pred_numeral k) x"
  by (simp add: numeral_eq_Suc)

lemmas ieee_defs = ieee_of_format_def ieee_value_def be_nat_def le_nat_def float_eq_def

lemma ieee_le4_values [ovf_eval]:
  "ieee_of_format ''<f'' [CHR 0x00, CHR 0x00, CHR 0x80, CHR 0x3F] = Finite 1"
  "ieee_of_format ''<f'' [CHR 0x00, CHR 0x00, CHR 0x00, CHR 0x40] = Finite 2"
  "ieee_of_format ''<f'' [CHR 0x00, CHR 0x00, CHR 0x40, CHR 0x40] = Finite 3"
  "ieee_of_format ''<f'' [CHR 0x00, CHR 0x00, CHR 0x80, CHR 0x40] = Finite 4"
  "ieee_of_format ''<f'' [CHR 0x00, CHR 0x00, CHR 0xA0, CHR 0x40] = Finite 5"
  "ieee_of_format ''<f'' [CHR 0x00, CHR 0x00, CHR 0xC0, CHR 0x40] = Finite 6"
  by (simp_all add: ieee_defs pow2_def)

lemma endianness_mark4_le [ovf_eval]:
  "endianness (CHR 0x38 # CHR 0xB4 # CHR 0x96 # CHR 0x49 # rest) 4 = Inr (''<f'', rest)"
  by (simp add: endianness_def ieee_defs ovf_eval)

lemma endianness_mark4_be [ovf_eval]:
  "endianness (CHR 0x49 # CHR 0x96 # CHR 0xB4 # CHR 0x38 # rest) 4 = Inr (''>f'', rest)"
  by (simp add: endianness_def ieee_defs ovf_eval)

section \<open>The header reader never returns without the marker\<close>

lemma header_step_at_end: "header_step h [] = Inr (h, [], [])"
  by (simp add: header_step_def readline_def strip_with_def decode_def is_ascii_def and_then_def
      header_keys_def provenance_def)

text \<open>
  At the end of the file with an empty \<open>line\<close>, a pass of the loop changes nothing: the
  next pass starts from the same state. So no run from that state returns.
\<close>

lemma read_header_loop_at_end: "read_header_loop h [] [] = None"
proof (cases "read_header_loop h [] []")
  case None
  then show ?thesis .
next
  case (Some y)
  have "\<not> ([] = ([]::string) \<and> [] = ([]::bytes))"
  proof (rule read_header_loop.raw_induct
      [where P = "\<lambda>h line f y. \<not> (line = [] \<and> f = [])", OF _ Some])
    fix loop :: "headers \<Rightarrow> string \<Rightarrow> bytes \<Rightarrow> (error + headers \<times> bytes) option"
    fix h line f y
    assume IH: "\<And>h line f y. loop h line f = Some y \<Longrightarrow> \<not> (line = [] \<and> f = [])"
    assume body: "(if py_in ''Begin: Data'' line
      then Some (Inr (h(''data_type'' \<mapsto> HList (str_split line)), f))
      else case header_step h f of Inl e \<Rightarrow> Some (Inl e)
           | Inr (h', line', f') \<Rightarrow> loop h' line' f') = Some y"
    show "\<not> (line = [] \<and> f = [])"
    proof
      assume e: "line = [] \<and> f = []"
      from body e have "loop h [] [] = Some y" by (simp add: header_step_at_end)
      from IH [OF this] show False by simp
    qed
  qed
  then show ?thesis by simp
qed

text \<open>The three ways a pass of the loop goes, as rewrite rules that do not unfold forever.\<close>

lemma read_header_loop_marker [ovf_eval]:
  "py_in ''Begin: Data'' line \<Longrightarrow>
   read_header_loop h line f = Some (Inr (h(''data_type'' \<mapsto> HList (str_split line)), f))"
  by (subst read_header_loop.simps) simp

lemma read_header_loop_next [ovf_eval]:
  "\<not> py_in ''Begin: Data'' line \<Longrightarrow>
   read_header_loop h line (c # cs) =
     (case header_step h (c # cs) of
        Inl e \<Rightarrow> Some (Inl e)
      | Inr (h', line', f') \<Rightarrow> read_header_loop h' line' f')"
  by (subst read_header_loop.simps) simp

lemma read_header_loop_eof [ovf_eval]:
  "\<not> py_in ''Begin: Data'' line \<Longrightarrow> read_header_loop h line [] = None"
  by (subst read_header_loop.simps) (simp add: header_step_at_end read_header_loop_at_end)

text \<open>
  The reader returns a header only when a line of the file holds the marker: on a file
  without one it never returns, or it ends in an exception that parsing a line raised.
\<close>

lemma header_step_Inr:
  assumes "header_step h f = Inr (h', line', f')"
  shows "line' = strip_with is_space_bytes (fst (readline f)) \<and> f' = snd (readline f)"
  using assms
  by (auto simp add: header_step_def and_then_def decode_def
      split: prod.splits sum.splits if_splits option.splits)

lemma readline_at_end: "readline [] = ([], [])"
  by (simp add: readline_def)

lemma read_header_loop_needs_marker:
  assumes "read_header_loop h line f = Some (Inr r)"
  shows "py_in ''Begin: Data'' line \<or> marker_ahead f"
proof -
  have "\<forall>r. y = Inr r \<longrightarrow> py_in ''Begin: Data'' line \<or> marker_ahead f"
    if "read_header_loop h line f = Some y" for y
  proof (rule read_header_loop.raw_induct
      [where P = "\<lambda>h line f y. \<forall>r. y = Inr r \<longrightarrow> py_in ''Begin: Data'' line \<or> marker_ahead f",
        OF _ that])
    fix loop :: "headers \<Rightarrow> string \<Rightarrow> bytes \<Rightarrow> (error + headers \<times> bytes) option"
    fix h line f y
    assume IH: "\<And>h line f y. loop h line f = Some y \<Longrightarrow>
                  \<forall>r. y = Inr r \<longrightarrow> py_in ''Begin: Data'' line \<or> marker_ahead f"
    assume body: "(if py_in ''Begin: Data'' line
      then Some (Inr (h(''data_type'' \<mapsto> HList (str_split line)), f))
      else case header_step h f of Inl e \<Rightarrow> Some (Inl e)
           | Inr (h', line', f') \<Rightarrow> loop h' line' f') = Some y"
    show "\<forall>r. y = Inr r \<longrightarrow> py_in ''Begin: Data'' line \<or> marker_ahead f"
    proof (intro allI impI)
      fix r
      assume y: "y = Inr r"
      show "py_in ''Begin: Data'' line \<or> marker_ahead f"
      proof (cases "py_in ''Begin: Data'' line")
        case True
        then show ?thesis by simp
      next
        case False
        show ?thesis
        proof (cases "header_step h f")
          case (Inl e)
          with body False y show ?thesis by simp
        next
          case (Inr t)
          obtain h' line' f' where t: "t = (h', line', f')" by (cases t) auto
          with Inr body False have call: "loop h' line' f' = Some y" by simp
          from IH [OF call] y have ahead: "py_in ''Begin: Data'' line' \<or> marker_ahead f'"
            by simp
          from Inr t header_step_Inr
          have l: "line' = strip_with is_space_bytes (fst (readline f))" and f: "f' = snd (readline f)"
            by blast+
          have "marker_ahead f"
          proof (cases "f = []")
            case True
            with l f have "line' = []" "f' = []"
              by (simp_all add: readline_at_end strip_with_def)
            with ahead show ?thesis by (simp add: marker_ahead.simps)
          next
            case False
            with ahead l f show ?thesis
              by (subst marker_ahead.simps) (simp add: case_prod_unfold)
          qed
          then show ?thesis by simp
        qed
      qed
    qed
  qed
  from this [OF assms] show ?thesis by simp
qed

lemma read_header_needs_marker:
  "read_header f = Some (Inr r) \<Longrightarrow> marker_ahead f"
  using read_header_loop_needs_marker [of initial_headers "[]" f r]
  by (simp add: read_header_def)

corollary read_header_without_marker:
  "\<not> marker_ahead f \<Longrightarrow> read_header f = None \<or> (\<exists>e. read_header f = Some (Inl e))"
  using read_header_needs_marker [of f]
  by (cases "read_header f") (auto simp add: sum.exhaust intro: sum.exhaust)

text \<open>
  Claim C4: on every stream that ends before a line with the marker \<open>Begin: Data\<close>, the
  header reader fails with a truncated-header error; it neither returns a header nor
  runs forever. The code does not do this: the loop has no test for the end of the file,
  where \<open>readline\<close> returns the empty byte string for ever. On a header cut off before the
  marker, and on the empty file, \<open>_read_header\<close> raises nothing and never returns.
\<close>

theorem read_header_truncated_never_returns:
  "read_header truncated_header = None \<and> read_header [] = None"
  by (simp add: truncated_header_def ovf_eval)

section \<open>Properties of the endianness detector\<close>

subsection \<open>The bit patterns of the magic constants\<close>

lemma pow2_powi: "pow2 e = 2 powi e"
  by (simp add: pow2_def power_int_def power_one_over)

lemma pow2_mono: "a \<le> b \<Longrightarrow> pow2 a \<le> pow2 b"
  by (simp add: pow2_powi power_int_increasing)

lemma pow2_pos: "0 < pow2 e"
  by (simp add: pow2_powi)

lemma pow2_succ: "pow2 (a + 1) = 2 * pow2 a"
  by (simp add: pow2_powi power_int_add)

text \<open>
  A normal number has one bit pattern: a pattern \<open>n\<close> whose value is that of exponent
  field \<open>e0\<close> and fraction \<open>m0\<close> is the pattern with that exponent and fraction.
\<close>

lemma ieee_value_normal_unique:
  fixes ew mw n e0 m0 :: nat
  assumes n: "n < 2 * (2 ^ mw * 2 ^ ew)"
    and e0: "0 < e0" "e0 < 2 ^ ew - 1" and m0: "m0 < 2 ^ mw"
    and v: "ieee_value ew mw n
             = Finite (of_nat (2 ^ mw + m0) * pow2 (int e0 - int (2 ^ (ew - 1) - 1) - int mw))"
  shows "n = e0 * 2 ^ mw + m0"
proof -
  define M where "M = (2::nat) ^ mw"
  define m where "m = n mod M"
  define e where "e = (n div M) mod 2 ^ ew"
  define s where "s = (n div 2 ^ (mw + ew)) mod 2"
  define K where "K = int (2 ^ (ew - 1) - 1) + int mw"
  define mag :: rat where
    "mag = (if e = 0 then of_nat m * pow2 (1 - K) else of_nat (M + m) * pow2 (int e - K))"
  define V :: rat where "V = of_nat (M + m0) * pow2 (int e0 - K)"
  have Mpos: "0 < M" by (simp add: M_def)
  have mlt: "m < M" using Mpos by (simp add: m_def)
  have k1: "1 - int (2 ^ (ew - 1) - 1) - int mw = 1 - K"
    and k2: "\<And>x. x - int (2 ^ (ew - 1) - 1) - int mw = x - K"
    by (simp_all add: K_def)
  have unf: "ieee_value ew mw n =
      (if e = 2 ^ ew - 1 then (if m \<noteq> 0 then NaN else if s = 0 then PInf else NInf)
       else Finite (if s = 0 then mag else - mag))"
    unfolding ieee_value_def Let_def k1 k2
    by (simp add: M_def m_def e_def s_def mag_def)
  from v have v': "ieee_value ew mw n = Finite V"
    unfolding k2 by (simp add: V_def M_def)
  from unf v' have ene: "e \<noteq> 2 ^ ew - 1" and sv: "(if s = 0 then mag else - mag) = V"
    by (auto split: if_splits)
  have Vpos: "0 < V"
    unfolding V_def using Mpos pow2_pos by (simp add: zero_less_mult_iff)
  have magnn: "0 \<le> mag"
    unfolding mag_def using pow2_pos [of "1 - K"] pow2_pos [of "int e - K"]
    by (simp add: less_imp_le)
  from sv Vpos magnn have s0: "s = 0" and mv: "mag = V"
    by (auto split: if_splits)
  have lo: "of_nat M * pow2 (int e0 - K) \<le> V"
    unfolding V_def using pow2_pos [of "int e0 - K"]
    by (simp add: mult_right_mono less_imp_le)
  have e_pos: "e \<noteq> 0"
  proof
    assume z: "e = 0"
    then have "mag = of_nat m * pow2 (1 - K)" by (simp add: mag_def)
    also have "\<dots> < of_nat M * pow2 (1 - K)"
      using mlt pow2_pos [of "1 - K"] by (simp add: mult_strict_right_mono)
    also have "\<dots> \<le> of_nat M * pow2 (int e0 - K)"
      using e0(1) pow2_mono [of "1 - K" "int e0 - K"] by (simp add: mult_left_mono)
    also note lo
    finally show False using mv by simp
  qed
  then have mg: "mag = of_nat (M + m) * pow2 (int e - K)" by (simp add: mag_def)
  have hi: "of_nat (M + x) * pow2 (a - K) < of_nat M * pow2 (a + 1 - K)" if "x < M" for x a
  proof -
    have "a + 1 - K = (a - K) + 1" by simp
    then have "pow2 (a + 1 - K) = 2 * pow2 (a - K)"
      by (simp only: pow2_succ)
    then have "of_nat M * pow2 (a + 1 - K) = of_nat (2 * M) * pow2 (a - K)"
      by simp
    moreover have "(of_nat (M + x) :: rat) < of_nat (2 * M)"
      using that by (simp only: of_nat_less_iff)
    ultimately show ?thesis
      using pow2_pos [of "a - K"] by (simp add: mult_strict_right_mono)
  qed
  have lo2: "of_nat M * pow2 (a - K) \<le> of_nat (M + x) * pow2 (a - K)" for x a
    using pow2_pos [of "a - K"] by (simp add: mult_right_mono less_imp_le)
  have ee: "e = e0"
  proof (rule ccontr)
    assume ne: "e \<noteq> e0"
    show False
    proof (cases "e < e0")
      case True
      have "mag < of_nat M * pow2 (int e + 1 - K)"
        unfolding mg using mlt by (rule hi)
      also have "\<dots> \<le> of_nat M * pow2 (int e0 - K)"
        using True pow2_mono [of "int e + 1 - K" "int e0 - K"] by (simp add: mult_left_mono)
      also note lo
      finally show False using mv by simp
    next
      case False
      with ne have gt: "e0 < e" by simp
      have "V < of_nat M * pow2 (int e0 + 1 - K)"
        unfolding V_def using m0 [folded M_def] by (rule hi)
      also have "\<dots> \<le> of_nat M * pow2 (int e - K)"
        using gt pow2_mono [of "int e0 + 1 - K" "int e - K"] by (simp add: mult_left_mono)
      also have "\<dots> \<le> mag"
        unfolding mg by (rule lo2)
      finally show False using mv by simp
    qed
  qed
  have mm: "m = m0"
  proof -
    from mv mg ee have "of_nat (M + m) * pow2 (int e0 - K) = (of_nat (M + m0) :: rat) * pow2 (int e0 - K)"
      by (simp add: V_def)
    with pow2_pos [of "int e0 - K"] have "(of_nat (M + m) :: rat) = of_nat (M + m0)"
      by simp
    then have "M + m = M + m0" by (simp only: of_nat_eq_iff)
    then show ?thesis by simp
  qed
  have hi_bits: "n div 2 ^ (mw + ew) < 2"
  proof -
    have "n < 2 * 2 ^ (mw + ew)" using n by (simp add: power_add)
    then show ?thesis by (simp add: less_mult_imp_div_less)
  qed
  with s0 have top: "n div 2 ^ (mw + ew) = 0" by (simp add: s_def)
  have "n div M div 2 ^ ew = n div 2 ^ (mw + ew)"
    by (simp add: M_def power_add div_mult2_eq)
  with top have "n div M < 2 ^ ew"
    by (metis div_eq_0_iff zero_less_numeral zero_less_power less_not_refl)
  then have "e = n div M" by (simp add: e_def)
  moreover have "n = (n div M) * M + m" by (simp add: m_def)
  ultimately show ?thesis using ee mm by (simp add: M_def)
qed

text \<open>The two magic constants, bit for bit.\<close>

lemma single_magic_bits:
  assumes "n < 2 ^ 32"
  shows "ieee_value 8 23 n = Finite 1234567 \<longleftrightarrow> n = 1234613304"
proof
  assume v: "ieee_value 8 23 n = Finite 1234567"
  have "n = 147 * 2 ^ 23 + 1487928"
  proof (rule ieee_value_normal_unique [where ew = 8])
    show "n < 2 * (2 ^ 23 * 2 ^ 8)" using assms by simp
    show "ieee_value 8 23 n
        = Finite (of_nat (2 ^ 23 + 1487928) * pow2 (int 147 - int (2 ^ (8 - 1) - 1) - int 23))"
      using v by (simp add: pow2_def)
  qed simp_all
  then show "n = 1234613304" by simp
next
  assume "n = 1234613304"
  then show "ieee_value 8 23 n = Finite 1234567"
    by (simp add: ieee_value_def pow2_def)
qed

lemma double_magic_bits:
  assumes "n < 2 ^ 64"
  shows "ieee_value 11 52 n = Finite 123456789012345 \<longleftrightarrow> n = 4817745636528479808"
proof
  assume v: "ieee_value 11 52 n = Finite 123456789012345"
  have "n = 1069 * 2 ^ 52 + 3397634869419584"
  proof (rule ieee_value_normal_unique [where ew = 11])
    show "n < 2 * (2 ^ 52 * 2 ^ 11)" using assms by simp
    show "ieee_value 11 52 n
        = Finite (of_nat (2 ^ 52 + 3397634869419584)
            * pow2 (int 1069 - int (2 ^ (11 - 1) - 1) - int 52))"
      using v by (simp add: pow2_def)
  qed simp_all
  then show "n = 4817745636528479808" by simp
next
  assume "n = 4817745636528479808"
  then show "ieee_value 11 52 n = Finite 123456789012345"
    by (simp add: ieee_value_def pow2_def)
qed

text \<open>Byte strings of one length that denote the same number are the same.\<close>

lemma be_nat_snoc: "be_nat (bs @ [c]) = be_nat bs * 256 + of_char c"
  by (simp add: be_nat_def)

lemma float_eq_Finite: "float_eq x (Finite q) \<longleftrightarrow> x = Finite q"
  by (auto simp add: float_eq_def)

lemma be_nat_bound: "be_nat bs < 256 ^ length bs"
proof (induction bs rule: rev_induct)
  case Nil
  then show ?case by (simp add: be_nat_def)
next
  case (snoc c bs)
  have "of_char c < (256 :: nat)" by simp
  with snoc have "be_nat bs * 256 + of_char c < Suc (be_nat bs) * 256" by simp
  also have "\<dots> \<le> 256 ^ length bs * 256"
    using snoc by (intro mult_le_mono1) simp
  finally show ?case by (simp add: be_nat_snoc)
qed

lemma be_nat_inj:
  assumes "length a = length b" and "be_nat a = be_nat b"
  shows "a = b"
  using assms
proof (induction a arbitrary: b rule: rev_induct)
  case Nil
  then show ?case by simp
next
  case (snoc c a)
  from snoc.prems(1) obtain d b' where b: "b = b' @ [d]"
    by (cases b rule: rev_cases) auto
  with snoc.prems have len: "length a = length b'"
    and eq: "be_nat a * 256 + of_char c = be_nat b' * 256 + of_char d"
    by (simp_all add: be_nat_snoc)
  have c: "of_char c < (256 :: nat)" and d: "of_char d < (256 :: nat)" by simp_all
  have "(be_nat a * 256 + of_char c) div 256 = be_nat a"
    and "(be_nat b' * 256 + of_char d) div 256 = be_nat b'"
    using c d by simp_all
  with eq have hi: "be_nat a = be_nat b'" by simp
  with eq have "(of_char c :: nat) = of_char d" by simp
  then have lo: "c = d" by (simp only: of_char_eq_iff)
  note hi lo
  with snoc.IH [OF len] b show ?case by simp
qed

text \<open>
  So the comparison of \<open>_endianness\<close> succeeds on exactly one byte string for each width
  and byte order.
\<close>

lemma be_nat_eq_iff:
  assumes "length b = length mark"
  shows "be_nat b = be_nat mark \<longleftrightarrow> b = mark"
  using assms be_nat_inj by blast

lemma float_eq_single_be:
  assumes len: "length b = 4"
  shows "float_eq (ieee_of_format ''>f'' b) (Finite 1234567)
           \<longleftrightarrow> b = [CHR 0x49, CHR 0x96, CHR 0xB4, CHR 0x38]"
proof -
  let ?mark = "[CHR 0x49, CHR 0x96, CHR 0xB4, CHR 0x38]"
  have bound: "be_nat b < 2 ^ 32" using be_nat_bound [of b] len by simp
  have mk: "be_nat ?mark = 1234613304" by (simp add: be_nat_def)
  have "float_eq (ieee_of_format ''>f'' b) (Finite 1234567)
          \<longleftrightarrow> ieee_value 8 23 (be_nat b) = Finite 1234567"
    by (simp add: float_eq_Finite ieee_of_format_def)
  also have "\<dots> \<longleftrightarrow> be_nat b = be_nat ?mark"
    unfolding mk using bound by (rule single_magic_bits)
  also have "\<dots> \<longleftrightarrow> b = ?mark"
    using len by (intro be_nat_eq_iff) simp
  finally show ?thesis .
qed

lemma float_eq_single_le:
  assumes len: "length b = 4"
  shows "float_eq (ieee_of_format ''<f'' b) (Finite 1234567)
           \<longleftrightarrow> b = [CHR 0x38, CHR 0xB4, CHR 0x96, CHR 0x49]"
proof -
  have "float_eq (ieee_of_format ''<f'' b) (Finite 1234567)
          \<longleftrightarrow> float_eq (ieee_of_format ''>f'' (rev b)) (Finite 1234567)"
    by (simp add: ieee_of_format_def le_nat_def)
  also have "\<dots> \<longleftrightarrow> rev b = [CHR 0x49, CHR 0x96, CHR 0xB4, CHR 0x38]"
    using len by (intro float_eq_single_be) simp
  also have "\<dots> \<longleftrightarrow> b = rev [CHR 0x49, CHR 0x96, CHR 0xB4, CHR 0x38]"
    by (rule rev_swap)
  finally show ?thesis by simp
qed

lemma float_eq_double_be:
  assumes len: "length b = 8"
  shows "float_eq (ieee_of_format ''>d'' b) (Finite 123456789012345)
           \<longleftrightarrow> b = [CHR 0x42, CHR 0xDC, CHR 0x12, CHR 0x21, CHR 0x83, CHR 0x77, CHR 0xDE, CHR 0x40]"
proof -
  let ?mark = "[CHR 0x42, CHR 0xDC, CHR 0x12, CHR 0x21, CHR 0x83, CHR 0x77, CHR 0xDE, CHR 0x40]"
  have bound: "be_nat b < 2 ^ 64" using be_nat_bound [of b] len by simp
  have mk: "be_nat ?mark = 4817745636528479808" by (simp add: be_nat_def)
  have "float_eq (ieee_of_format ''>d'' b) (Finite 123456789012345)
          \<longleftrightarrow> ieee_value 11 52 (be_nat b) = Finite 123456789012345"
    by (simp add: float_eq_Finite ieee_of_format_def)
  also have "\<dots> \<longleftrightarrow> be_nat b = be_nat ?mark"
    unfolding mk using bound by (rule double_magic_bits)
  also have "\<dots> \<longleftrightarrow> b = ?mark"
    using len by (intro be_nat_eq_iff) simp
  finally show ?thesis .
qed

lemma float_eq_double_le:
  assumes len: "length b = 8"
  shows "float_eq (ieee_of_format ''<d'' b) (Finite 123456789012345)
           \<longleftrightarrow> b = [CHR 0x40, CHR 0xDE, CHR 0x77, CHR 0x83, CHR 0x21, CHR 0x12, CHR 0xDC, CHR 0x42]"
proof -
  have "float_eq (ieee_of_format ''<d'' b) (Finite 123456789012345)
          \<longleftrightarrow> float_eq (ieee_of_format ''>d'' (rev b)) (Finite 123456789012345)"
    by (simp add: ieee_of_format_def le_nat_def)
  also have "\<dots> \<longleftrightarrow> rev b = [CHR 0x42, CHR 0xDC, CHR 0x12, CHR 0x21, CHR 0x83, CHR 0x77, CHR 0xDE, CHR 0x40]"
    using len by (intro float_eq_double_be) simp
  also have "\<dots> \<longleftrightarrow> b = rev [CHR 0x42, CHR 0xDC, CHR 0x12, CHR 0x21, CHR 0x83, CHR 0x77, CHR 0xDE, CHR 0x40]"
    by (rule rev_swap)
  finally show ?thesis by simp
qed

text \<open>
  The detector in terms of the bytes it reads: it returns a format exactly when the next
  bytes are the control mark in that byte order, and then the file object stands right
  after them.
\<close>

lemma endianness_short:
  assumes "w = 4 \<or> w = 8" and "length f < nat w"
  shows "endianness f w = Inl StructError"
  using assms
  by (auto simp add: endianness_def stream_read_def ssize_max_def bytes_max_def and_then_def subscript_def big_endian_def
      struct_unpack_def calcsize_def)

lemma endianness_4_unfold:
  assumes "4 \<le> length f"
  shows "endianness f 4 =
    (if take 4 f = mark4_be then Inr (''>f'', drop 4 f)
     else if take 4 f = mark4_le then Inr (''<f'', drop 4 f)
     else Inl (TypeError ''bytes object cannot be interpreted as an integer''))"
proof -
  from assms have len: "length (take 4 f) = 4" by simp
  show ?thesis
    unfolding mark4_be_def mark4_le_def
      float_eq_single_be [OF len, symmetric] float_eq_single_le [OF len, symmetric]
    using assms
    by (simp add: endianness_def stream_read_def ssize_max_def bytes_max_def and_then_def subscript_def big_endian_def
        little_endian_def magic_value_def struct_unpack_def calcsize_def hex_of_bytes_def)
qed

lemma endianness_8_unfold:
  assumes "8 \<le> length f"
  shows "endianness f 8 =
    (if take 8 f = mark8_be then Inr (''>d'', drop 8 f)
     else if take 8 f = mark8_le then Inr (''<d'', drop 8 f)
     else Inl (TypeError ''bytes object cannot be interpreted as an integer''))"
proof -
  from assms have len: "length (take 8 f) = 8" by simp
  show ?thesis
    unfolding mark8_be_def mark8_le_def
      float_eq_double_be [OF len, symmetric] float_eq_double_le [OF len, symmetric]
    using assms
    by (simp add: endianness_def stream_read_def ssize_max_def bytes_max_def and_then_def subscript_def big_endian_def
        little_endian_def magic_value_def struct_unpack_def calcsize_def hex_of_bytes_def)
qed

lemma endianness_4_iff:
  "endianness f 4 = Inr (fmt, r) \<longleftrightarrow>
     r = drop 4 f \<and> (fmt = ''>f'' \<and> take 4 f = mark4_be \<or> fmt = ''<f'' \<and> take 4 f = mark4_le)"
proof (cases "4 \<le> length f")
  case True
  have "mark4_be \<noteq> mark4_le" by (simp add: mark4_be_def mark4_le_def)
  with endianness_4_unfold [OF True] show ?thesis by auto
next
  case False
  then have "endianness f 4 = Inl StructError"
    by (intro endianness_short) simp_all
  moreover from False have "length (take 4 f) \<noteq> length mark4_be" "length (take 4 f) \<noteq> length mark4_le"
    by (simp_all add: mark4_be_def mark4_le_def)
  then have "take 4 f \<noteq> mark4_be" "take 4 f \<noteq> mark4_le" by metis+
  ultimately show ?thesis by simp
qed

lemma endianness_8_iff:
  "endianness f 8 = Inr (fmt, r) \<longleftrightarrow>
     r = drop 8 f \<and> (fmt = ''>d'' \<and> take 8 f = mark8_be \<or> fmt = ''<d'' \<and> take 8 f = mark8_le)"
proof (cases "8 \<le> length f")
  case True
  have "mark8_be \<noteq> mark8_le" by (simp add: mark8_be_def mark8_le_def)
  with endianness_8_unfold [OF True] show ?thesis by auto
next
  case False
  then have "endianness f 8 = Inl StructError"
    by (intro endianness_short) simp_all
  moreover from False have "length (take 8 f) \<noteq> length mark8_be" "length (take 8 f) \<noteq> length mark8_le"
    by (simp_all add: mark8_be_def mark8_le_def)
  then have "take 8 f \<noteq> mark8_be" "take 8 f \<noteq> mark8_le" by metis+
  ultimately show ?thesis by simp
qed

subsection \<open>Which order is returned\<close>

text \<open>
  Claim C7: for a width \<open>w\<close> of 4 or 8 the detector reads exactly \<open>w\<close> bytes; it returns
  the big-endian format when those bytes, read as a big-endian float or double, equal the
  magic constant (\<open>1234567.0\<close> for 4, \<open>123456789012345.0\<close> for 8), testing big-endian
  first; otherwise the little-endian format when that reading equals the constant; and a
  format it returns is one whose reading matched. The file must hold the \<open>w\<close> bytes.
\<close>

theorem endianness_resolves_order:
  assumes w: "w = 4 \<or> w = 8" and len: "nat w \<le> length f"
  shows "let buf = take (nat w) f; rest = drop (nat w) f;
             be = (if w = 4 then ''>f'' else ''>d'');
             le = (if w = 4 then ''<f'' else ''<d'');
             magic = (if w = 4 then Finite 1234567 else Finite 123456789012345)
         in (float_eq (ieee_of_format be buf) magic \<longrightarrow> endianness f w = Inr (be, rest))
          \<and> (\<not> float_eq (ieee_of_format be buf) magic \<and> float_eq (ieee_of_format le buf) magic
               \<longrightarrow> endianness f w = Inr (le, rest))
          \<and> (\<forall>fmt r. endianness f w = Inr (fmt, r) \<longrightarrow>
                r = rest \<and> length buf = nat w
                \<and> (fmt = be \<and> float_eq (ieee_of_format be buf) magic
                   \<or> fmt = le \<and> float_eq (ieee_of_format le buf) magic))"
  using w
proof
  assume "w = 4"
  with len show ?thesis
    by (auto simp add: endianness_def stream_read_def ssize_max_def bytes_max_def and_then_def subscript_def big_endian_def
        little_endian_def magic_value_def struct_unpack_def calcsize_def hex_of_bytes_def Let_def)
next
  assume "w = 8"
  with len show ?thesis
    by (auto simp add: endianness_def stream_read_def ssize_max_def bytes_max_def and_then_def subscript_def big_endian_def
        little_endian_def magic_value_def struct_unpack_def calcsize_def hex_of_bytes_def Let_def)
qed

theorem endianness_resolves_order_witness:
  "((4::int) = 4 \<or> (4::int) = 8) \<and> nat 4 \<le> length (mark4_be @ ''abc'')
   \<and> float_eq (ieee_of_format ''>f'' (take (nat 4) (mark4_be @ ''abc''))) (Finite 1234567)
   \<and> endianness (mark4_be @ ''abc'') 4 = Inr (''>f'', ''abc'')"
proof -
  have a: "(4::int) = 4 \<or> (4::int) = 8" by simp
  have b: "nat 4 \<le> length (mark4_be @ ''abc'')" by (simp add: mark4_be_def)
  have c: "float_eq (ieee_of_format ''>f'' (take (nat 4) (mark4_be @ ''abc''))) (Finite 1234567)"
    by (simp add: mark4_be_def ieee_defs pow2_def)
  have d: "drop (nat 4) (mark4_be @ ''abc'') = ''abc''"
    by (simp add: mark4_be_def)
  have "float_eq (ieee_of_format ''>f'' (take (nat 4) (mark4_be @ ''abc''))) (Finite 1234567)
        \<longrightarrow> endianness (mark4_be @ ''abc'') 4 = Inr (''>f'', drop (nat 4) (mark4_be @ ''abc''))"
    using endianness_resolves_order [OF a b] unfolding Let_def by (simp only: simp_thms if_True) blast
  with c d have e: "endianness (mark4_be @ ''abc'') 4 = Inr (''>f'', ''abc'')"
    by simp
  from a b c e show ?thesis by blast
qed

text \<open>
  The last branch of \<open>_endianness\<close> builds its message with \<open>hex(buffer)\<close>, which raises
  before the \<open>IOError\<close> exists: whatever the file and the width, the detector never ends
  in an \<open>IOError\<close>.
\<close>

lemma endianness_never_ioerror: "endianness f nbytes \<noteq> Inl (IOError msg)"
  by (auto simp add: endianness_def and_then_def stream_read_def ssize_max_def bytes_max_def subscript_def struct_unpack_def
      hex_of_bytes_def big_endian_def little_endian_def magic_value_def
      split: sum.splits option.splits if_splits)

lemma endianness_no_match:
  assumes "w = 4 \<or> w = 8" and "nat w \<le> length f"
    and "\<not> float_eq (ieee_of_format (if w = 4 then ''>f'' else ''>d'') (take (nat w) f))
            (if w = 4 then Finite 1234567 else Finite 123456789012345)"
    and "\<not> float_eq (ieee_of_format (if w = 4 then ''<f'' else ''<d'') (take (nat w) f))
            (if w = 4 then Finite 1234567 else Finite 123456789012345)"
  shows "endianness f w = Inl (TypeError ''bytes object cannot be interpreted as an integer'')"
  using assms
  by (auto simp add: endianness_def stream_read_def ssize_max_def bytes_max_def and_then_def subscript_def big_endian_def
      little_endian_def magic_value_def struct_unpack_def calcsize_def hex_of_bytes_def)

text \<open>
  Claim C8: for a control mark that matches under neither byte order, the detector raises
  a fatal error that carries the raw bytes and the width. The code means to (its last
  line raises \<open>IOError\<close> with the width and the bytes in the message) but it formats the
  bytes with \<open>hex\<close>, which takes an integer: on the mark \<open>b'0000'\<close> with width 4 the call
  ends in the \<open>TypeError\<close> of \<open>hex\<close>, which carries neither the bytes nor the width.
\<close>

theorem endianness_no_match_raises_type_error:
  "endianness (''0000'' @ rest) 4 = Inl (TypeError ''bytes object cannot be interpreted as an integer'')"
  by (simp add: endianness_def ieee_defs ovf_eval)

section \<open>Properties of the decoders\<close>

subsection \<open>The layout of a decoded binary payload\<close>

lemma length_concat_rows:
  "length (concat (map (\<lambda>r. map (F r) [0..<m]) [0..<n])) = n * m"
  by (induction n) simp_all

lemma nth_concat_rows:
  assumes "r < n" and "c < m"
  shows "concat (map (\<lambda>r. map (F r) [0..<m]) [0..<n]) ! (r * m + c) = F r c"
  using assms
proof (induction n)
  case 0
  then show ?case by simp
next
  case (Suc n)
  show ?case
  proof (cases "r < n")
    case True
    with Suc.prems have "r * m + c < n * m"
      by (metis add.commute add_less_cancel_left less_le_trans mult_Suc mult_le_mono1 Suc_leI)
    with True Suc show ?thesis
      by (simp add: nth_append length_concat_rows)
  next
    case False
    with Suc.prems have "r = n" by simp
    with Suc.prems show ?thesis
      by (simp add: nth_append length_concat_rows)
  qed
qed

lemma offset_in_range:
  fixes a b :: nat
  assumes "a < A" and "b < B"
  shows "a * B + b < A * B"
proof -
  have "a * B + b < a * B + B" using assms by simp
  also have "\<dots> = Suc a * B" by simp
  also have "\<dots> \<le> A * B" using assms by (intro mult_le_mono1) simp
  finally show ?thesis .
qed

lemma take_drop_take:
  assumes "off + w \<le> N"
  shows "take w (drop off (take N xs)) = take w (drop off xs)"
proof -
  have "take w (drop off (take N xs)) = take w (take (N - off) (drop off xs))"
    by (simp add: drop_take)
  also have "\<dots> = take w (drop off xs)"
    using assms by (simp add: min_def)
  finally show ?thesis .
qed

lemma stream_read_nat:
  assumes "int n \<le> bytes_max"
  shows "stream_read (int n) f = Inr (take n f, drop n f)"
  using assms by (simp add: stream_read_def ssize_max_def bytes_max_def)

lemma calcsize_pos: "calcsize dtype = Some w \<Longrightarrow> 0 < w"
  by (auto simp add: calcsize_def split: if_splits)

text \<open>
  The bulk decoder lays the payload out as the format says: for a geometry
  \<open>(nx, ny, nz)\<close> and a payload of at least \<open>nx * ny * nz * 3\<close> values of \<open>w\<close> bytes (and
  of no more bytes than a \<open>bytes\<close> object can hold), the
  result has shape \<open>(nz, ny, nx, 3)\<close>, and its element \<open>[k][j][i][c]\<close> is the value
  held by the \<open>w\<close> bytes at value position \<open>((k * ny + j) * nx + i) * 3 + c\<close>. No
  multiplier is applied.
\<close>

lemma fast_binary_decode_layout:
  assumes hx: "header_int h ''xnodes'' = Inr (int nx)"
    and hy: "header_int h ''ynodes'' = Inr (int ny)"
    and hz: "header_int h ''znodes'' = Inr (int nz)"
    and sz: "calcsize dtype = Some w"
    and len: "nx * ny * nz * 3 * w \<le> length f"
    and fits: "int (length f) \<le> bytes_max"
  shows "\<exists>a. fast_binary_decode f (int w) h dtype = Inr a
           \<and> shape a = [nz, ny, nx, 3]
           \<and> (\<forall>k<nz. \<forall>j<ny. \<forall>i<nx. \<forall>c<3.
                 nd_get a [k, j, i, c]
                   = Inr (ieee_of_format dtype
                       (take w (drop ((((k * ny + j) * nx + i) * 3 + c) * w) f))))"
proof -
  let ?n = "nx * ny * nz"
  let ?buf = "take (?n * 3 * w) f"
  let ?F = "\<lambda>r c. ieee_of_format dtype (take w (drop (r * (3 * w) + c * w) ?buf))"
  let ?elems = "concat (map (\<lambda>r. map (?F r) [0..<3]) [0..<?n])"
  let ?a = "\<lparr>shape = [nz, ny, nx, 3], elems = (if ?n = 0 then [] else ?elems)\<rparr>"
  from sz have wpos: "0 < w" by (rule calcsize_pos)
  have rd: "stream_read (int nx * int ny * int nz * 3 * int w) f = Inr (?buf, drop (?n * 3 * w) f)"
  proof -
    have e: "int nx * int ny * int nz * 3 * int w = int (?n * 3 * w)" by simp
    from len fits have "int (?n * 3 * w) \<le> bytes_max" by linarith
    then show ?thesis unfolding e by (rule stream_read_nat)
  qed
  have lb: "length ?buf = ?n * 3 * w" using len by simp
  have view: "ndarray_of_buffer (int nx * int ny * int nz, 3) dtype ?buf (3 * int w, int w)
                = Inr \<lparr>shape = [?n, 3], elems = (if ?n = 0 then [] else ?elems)\<rparr>"
  proof (cases "?n = 0")
    case True
    then show ?thesis
      by (auto simp add: ndarray_of_buffer_def sz)
  next
    case False
    then have npos: "0 < ?n" by simp
    have bound: "\<not> int (length ?buf) < (int nx * int ny * int nz - 1) * (3 * int w) + (3 - 1) * int w + int w"
    proof -
      have "(int nx * int ny * int nz - 1) * (3 * int w) + (3 - 1) * int w + int w
              = int nx * int ny * int nz * 3 * int w"
        by (simp add: algebra_simps)
      also have "\<dots> = int (length ?buf)" using lb by simp
      finally show ?thesis by simp
    qed
    have n3: "nat (3 * int w) = 3 * w" by simp
    have nn: "nat (int nx * int ny * int nz) = ?n"
      by (simp add: nat_mult_distrib)
    have nz0: "int nx * int ny * int nz \<noteq> 0" using False by simp
    have nneg: "\<not> int nx * int ny * int nz < 0"
      by (simp add: mult_nonneg_nonneg not_less)
    show ?thesis
      unfolding ndarray_of_buffer_def
      using False bound nz0 nneg wpos
      by (simp add: sz n3 nn del: of_nat_mult)
  qed
  have le: "length (if ?n = 0 then [] else ?elems) = ?n * 3"
    by (simp add: length_concat_rows)
  have rs: "reshape \<lparr>shape = [?n, 3], elems = (if ?n = 0 then [] else ?elems)\<rparr>
              [int nz, int ny, int nx, 3] = Inr ?a"
  proof -
    have "int nz * (int ny * (int nx * 3)) = int (?n * 3)"
      by (simp add: algebra_simps)
    then show ?thesis
      unfolding reshape_def Let_def using le
      by (simp del: of_nat_mult)
  qed
  have dec: "fast_binary_decode f (int w) h dtype = Inr ?a"
    unfolding fast_binary_decode_def
    using hx hy hz rd view rs by (simp add: and_then_def)
  have get: "nd_get ?a [k, j, i, c]
      = Inr (ieee_of_format dtype (take w (drop ((((k * ny + j) * nx + i) * 3 + c) * w) f)))"
    if k: "k < nz" and j: "j < ny" and i: "i < nx" and c: "c < 3" for k j i c
  proof -
    let ?q = "(k * ny + j) * nx + i"
    have q: "?q < ?n"
    proof -
      from k j have "k * ny + j < nz * ny" by (rule offset_in_range)
      from this i have "?q < nz * ny * nx" by (rule offset_in_range)
      then show ?thesis by (simp add: mult.commute mult.left_commute)
    qed
    from k j i have npos: "?n \<noteq> 0" by simp
    have fi: "flat_index [nz, ny, nx, 3] [k, j, i, c] = ?q * 3 + c"
      by (simp add: algebra_simps)
    have "?elems ! (?q * 3 + c) = ?F ?q c"
      using q c by (rule nth_concat_rows)
    moreover have "?q * (3 * w) + c * w = (?q * 3 + c) * w"
      by (simp add: algebra_simps)
    moreover have "take w (drop ((?q * 3 + c) * w) ?buf) = take w (drop ((?q * 3 + c) * w) f)"
    proof (rule take_drop_take)
      from q c have "?q * 3 + c < ?n * 3" by (rule offset_in_range)
      then have "Suc (?q * 3 + c) \<le> ?n * 3" by simp
      then have "Suc (?q * 3 + c) * w \<le> ?n * 3 * w" by (rule mult_le_mono1)
      then show "(?q * 3 + c) * w + w \<le> ?n * 3 * w" by (simp add: algebra_simps)
    qed
    ultimately have el: "?elems ! (?q * 3 + c)
        = ieee_of_format dtype (take w (drop ((?q * 3 + c) * w) f))"
      by simp
    have g1: "nd_get ?a [k, j, i, c]
        = Inr ((if ?n = 0 then [] else ?elems) ! flat_index [nz, ny, nx, 3] [k, j, i, c])"
      unfolding nd_get_def using k j i c by (simp del: flat_index.simps)
    have g2: "(if ?n = 0 then [] else ?elems) = ?elems"
      using npos by (simp only: if_False)
    note g1
    also have "Inr ((if ?n = 0 then [] else ?elems) ! flat_index [nz, ny, nx, 3] [k, j, i, c])
        = (Inr (?elems ! (?q * 3 + c)) :: error + pyfloat)"
      by (simp only: g2 fi)
    also have "\<dots> = Inr (ieee_of_format dtype (take w (drop ((?q * 3 + c) * w) f)))"
      by (simp only: el)
    finally show ?thesis .
  qed
  from dec get show ?thesis by auto
qed

text \<open>The same through \<open>unpack\<close>, for a file whose control mark the detector accepts.\<close>

lemma endianness_format_size:
  assumes "endianness f n = Inr (dtype, f')"
  shows "(n = 4 \<or> n = 8) \<and> calcsize dtype = Some (nat n) \<and> f' = drop (nat n) f
         \<and> nat n \<le> length f"
  using assms
  by (auto simp add: endianness_def and_then_def stream_read_def ssize_max_def bytes_max_def subscript_def struct_unpack_def
      hex_of_bytes_def big_endian_def little_endian_def magic_value_def calcsize_def
      split: if_splits)

lemma unpack_body_binary_layout:
  assumes enc: "data_type_token h 3 = Inr ''Binary''"
    and tok: "data_type_token h 4 = Inr tok"
    and width: "int_of_str tok = Inr n"
    and mark: "endianness f n = Inr (dtype, payload)"
    and hx: "header_int h ''xnodes'' = Inr (int nx)"
    and hy: "header_int h ''ynodes'' = Inr (int ny)"
    and hz: "header_int h ''znodes'' = Inr (int nz)"
    and len: "nx * ny * nz * 3 * nat n \<le> length payload"
    and fits: "int (length payload) \<le> bytes_max"
  shows "\<exists>a. unpack_body h f = Inr (PArray a)
           \<and> shape a = [nz, ny, nx, 3]
           \<and> (\<forall>k<nz. \<forall>j<ny. \<forall>i<nx. \<forall>c<3.
                 nd_get a [k, j, i, c]
                   = Inr (ieee_of_format dtype
                       (take (nat n) (drop ((((k * ny + j) * nx + i) * 3 + c) * nat n) payload))))"
proof -
  from endianness_format_size [OF mark]
  have n: "n = 4 \<or> n = 8" and sz: "calcsize dtype = Some (nat n)" by simp_all
  from n have nn: "int (nat n) = n" by auto
  from fast_binary_decode_layout [OF hx hy hz sz len fits] obtain a
    where a: "fast_binary_decode payload (int (nat n)) h dtype = Inr a"
      and rest: "shape a = [nz, ny, nx, 3]"
        "\<forall>k<nz. \<forall>j<ny. \<forall>i<nx. \<forall>c<3.
             nd_get a [k, j, i, c]
               = Inr (ieee_of_format dtype
                   (take (nat n) (drop ((((k * ny + j) * nx + i) * 3 + c) * nat n) payload)))"
    by blast
  from a nn have "fast_binary_decode payload n h dtype = Inr a" by simp
  with enc tok width mark have "unpack_body h f = Inr (PArray a)"
    by (simp add: unpack_body_def and_then_def)
  with rest show ?thesis by blast
qed

lemma unpack_binary_layout:
  assumes opened: "contents fs (pathize p) = Some fobj"
    and header: "read_header fobj = Some (Inr (h, f))"
    and enc: "data_type_token h 3 = Inr ''Binary''"
    and tok: "data_type_token h 4 = Inr tok"
    and width: "int_of_str tok = Inr n"
    and mark: "endianness f n = Inr (dtype, payload)"
    and hx: "header_int h ''xnodes'' = Inr (int nx)"
    and hy: "header_int h ''ynodes'' = Inr (int ny)"
    and hz: "header_int h ''znodes'' = Inr (int nz)"
    and len: "nx * ny * nz * 3 * nat n \<le> length payload"
    and fits: "int (length payload) \<le> bytes_max"
  shows "\<exists>a. unpack fs p = Some (Inr (PArray a))
           \<and> shape a = [nz, ny, nx, 3]
           \<and> (\<forall>k<nz. \<forall>j<ny. \<forall>i<nx. \<forall>c<3.
                 nd_get a [k, j, i, c]
                   = Inr (ieee_of_format dtype
                       (take (nat n) (drop ((((k * ny + j) * nx + i) * 3 + c) * nat n) payload))))"
  using unpack_body_binary_layout [OF enc tok width mark hx hy hz len fits] opened header
  by (simp add: unpack_def decode_file_def)

subsection \<open>Scaling\<close>

text \<open>The spec's example decodes as the spec says: shape \<open>(1, 1, 2, 3)\<close>, values \<open>1\<close> to \<open>6\<close>.\<close>

lemma unpack_spec_example:
  "unpack (run_dir [(''m0.ovf'', example_binary)]) [''run.out'', ''m0.ovf'']
     = Some (Inr (PArray \<lparr>shape = [1, 1, 2, 3],
          elems = [Finite 1, Finite 2, Finite 3, Finite 4, Finite 5, Finite 6]\<rparr>))"
  by (simp add: example_binary_def ovf_eval)

text \<open>
  Claim C1: \<open>unpack\<close> on a binary file returns an array of shape \<open>(nz, ny, nx, 3)\<close> whose
  element \<open>[k][j][i][c]\<close> is payload value number \<open>((k * ny + j) * nx + i) * 3 + c\<close>
  scaled by \<open>valuemultiplier\<close>. The code does not scale: on the spec's example with
  \<open>valuemultiplier: 2\<close> in the header, the header reader stores the multiplier \<open>2\<close> and
  \<open>unpack\<close> returns the values \<open>1\<close> to \<open>6\<close>, not \<open>2\<close> to \<open>12\<close>.
\<close>

theorem unpack_binary_example_not_scaled:
  "map_option (map_sum id (\<lambda>(h, f). get_valuemultiplier h)) (read_header example_binary_x2)
     = Some (Inr (HFloat (Finite 2)))
   \<and> unpack (run_dir [(''m0.ovf'', example_binary_x2)]) [''run.out'', ''m0.ovf'']
     = Some (Inr (PArray \<lparr>shape = [1, 1, 2, 3],
          elems = [Finite 1, Finite 2, Finite 3, Finite 4, Finite 5, Finite 6]\<rparr>))"
  by (simp add: example_binary_x2_def ovf_eval)

text \<open>The binary decoders do not look at the value multiplier at all.\<close>

lemma fast_binary_decode_ignores_valuemultiplier:
  "fast_binary_decode f chunk_size (h(''valuemultiplier'' \<mapsto> v)) dtype
     = fast_binary_decode f chunk_size h dtype"
  by (simp add: fast_binary_decode_def header_int_def)

lemma fast_binary_decode_scalars_ignores_valuemultiplier:
  "fast_binary_decode_scalars f chunk_size (h(''valuemultiplier'' \<mapsto> v)) dtype
     = fast_binary_decode_scalars f chunk_size h dtype"
  by (simp add: fast_binary_decode_scalars_def header_int_def)

text \<open>The text decoder does: every element it returns is a product with the multiplier.\<close>

lemma text_decode_scales:
  assumes "text_decode f h = Inr a" and "h ''valuemultiplier'' = Some (HFloat v)"
  shows "\<exists>raw. elems a = map (\<lambda>x. float_mul x v) raw"
  using assms
  by (auto simp add: text_decode_def and_then_def times_scalar_def get_valuemultiplier_def
      split: sum.splits prod.splits)

text \<open>
  Claim C2: every element of a decoded array is the raw value times \<open>valuemultiplier\<close>,
  for binary vectors, text and scalars alike. The code scales in \<open>_text_decode\<close> only:
  with \<open>valuemultiplier: 2\<close>, the binary cell \<open>(1, 2, 3)\<close> comes back as \<open>(1, 2, 3)\<close> and
  the binary scalar \<open>1\<close> as \<open>1\<close>, while the text cell \<open>(1, 2, 3)\<close> comes back as
  \<open>(2, 4, 6)\<close>.
\<close>

theorem binary_decoders_skip_valuemultiplier:
  "unpack (run_dir [(''m0.ovf'', cell_binary_x2)]) [''run.out'', ''m0.ovf'']
     = Some (Inr (PArray \<lparr>shape = [1, 1, 1, 3], elems = [Finite 1, Finite 2, Finite 3]\<rparr>))
   \<and> unpack_scalars (run_dir [(''m0.ovf'', scalar_binary_x2)]) [''run.out'', ''m0.ovf'']
     = Some (Inr (PArray \<lparr>shape = [1, 1, 1], elems = [Finite 1]\<rparr>))
   \<and> unpack (run_dir [(''m0.ovf'', cell_text_x2)]) [''run.out'', ''m0.ovf'']
     = Some (Inr (PArray \<lparr>shape = [1, 1, 1, 3], elems = [Finite 2, Finite 4, Finite 6]\<rparr>))"
  by (simp add: cell_binary_x2_def scalar_binary_x2_def cell_text_x2_def ovf_eval)

text \<open>
  Claim C3: a text file and a binary file that encode the same data decode to identical
  arrays. The code breaks this where the header has a value multiplier other than one:
  the cell \<open>(1, 2, 3)\<close> with \<open>valuemultiplier: 2\<close> decodes to \<open>(2, 4, 6)\<close> from text and
  to \<open>(1, 2, 3)\<close> from binary.
\<close>

theorem text_and_binary_differ:
  "unpack (run_dir [(''m0.ovf'', cell_text_x2), (''m1.ovf'', cell_binary_x2)]) [''run.out'', ''m0.ovf'']
     = Some (Inr (PArray \<lparr>shape = [1, 1, 1, 3], elems = [Finite 2, Finite 4, Finite 6]\<rparr>))
   \<and> unpack (run_dir [(''m0.ovf'', cell_text_x2), (''m1.ovf'', cell_binary_x2)]) [''run.out'', ''m1.ovf'']
     = Some (Inr (PArray \<lparr>shape = [1, 1, 1, 3], elems = [Finite 1, Finite 2, Finite 3]\<rparr>))"
  by (simp add: cell_binary_x2_def cell_text_x2_def ovf_eval)

text \<open>
  The sibling \<open>unpack_scalars\<close> ends its \<open>if\<close> with \<open>else: raise NotImplementedError\<close>,
  so an unknown encoding token is an error there.
\<close>

lemma unpack_scalars_unknown_encoding_raises:
  "unpack_scalars (run_dir [(''m0.ovf'', unknown_encoding)]) [''run.out'', ''m0.ovf'']
     = Some (Inl NotImplementedError)"
  by (simp add: unknown_encoding_def ovf_eval)

lemma unpack_body_unknown_encoding:
  assumes "data_type_token h 3 = Inr enc" and "enc \<noteq> ''Text''" and "enc \<noteq> ''Binary''"
  shows "unpack_body h f = Inr PNone"
  using assms by (simp add: unpack_body_def and_then_def)

text \<open>
  Claim C6: when token 3 of the marker line is neither \<open>Text\<close> nor \<open>Binary\<close>, \<open>unpack\<close>
  fails with a fatal format error and does not return silently. The code does return
  silently: the \<open>if\<close>/\<open>elif\<close> of \<open>unpack\<close> has no \<open>else\<close>, so on the marker line
  \<open># Begin: Data Hex 4\<close> the call returns \<open>None\<close> and raises nothing.
\<close>

theorem unpack_unknown_encoding_returns_none:
  "unpack (run_dir [(''m0.ovf'', unknown_encoding)]) [''run.out'', ''m0.ovf''] = Some (Inr PNone)"
  by (simp add: unknown_encoding_def ovf_eval)

section \<open>Properties of the group sequencer\<close>

text \<open>
  Claim C10: on a path whose suffix is neither \<open>.out\<close> nor \<open>.ovf\<close>, \<open>group_unpack\<close>
  never lists or decodes a file: \<open>files\<close> is not assigned, and the call fails with the
  unbound-name error, whatever the file system holds.
\<close>

theorem group_unpack_unbound_files:
  assumes "path_suffix (pathize p) \<noteq> ''.out''" and "path_suffix (pathize p) \<noteq> ''.ovf''"
  shows "group_unpack fs p = Some (Inl (UnboundLocalError ''files''))"
  using assms by (simp add: group_unpack_def Let_def)

theorem group_unpack_unbound_files_witness:
  "path_suffix (pathize [''data'', ''run'']) \<noteq> ''.out''
   \<and> path_suffix (pathize [''data'', ''run'']) \<noteq> ''.ovf''
   \<and> group_unpack (run_dir [(''m0.ovf'', cell_binary)]) [''data'', ''run'']
       = Some (Inl (UnboundLocalError ''files''))"
proof -
  have a: "path_suffix (pathize [''data'', ''run'']) \<noteq> ''.out''"
    by (simp add: ovf_eval)
  have b: "path_suffix (pathize [''data'', ''run'']) \<noteq> ''.ovf''"
    by (simp add: ovf_eval)
  from a b group_unpack_unbound_files [OF a b] show ?thesis by simp
qed

text \<open>
  \<open>group_unpack\<close> has no test for an empty file list. For a path with suffix \<open>.out\<close> (or
  \<open>.ovf\<close>) whose directory (or parent directory) holds no file matching \<open>m*.ovf\<close>, the
  list comprehension decodes nothing and \<open>np.array([])\<close> is returned, whatever else the file
  system holds.
\<close>

lemma group_unpack_no_files:
  assumes "(path_suffix (pathize p) = ''.out'' \<and> glob_m_ovf fs (pathize p) = [])
         \<or> (path_suffix (pathize p) = ''.ovf'' \<and> glob_m_ovf fs (path_parent (pathize p)) = [])"
  shows "group_unpack fs p = Some (Inr (FloatArray \<lparr>shape = [0], elems = []\<rparr>))"
  using assms by (auto simp add: group_unpack_def Let_def np_array_def)

lemma group_unpack_no_files_other_entries:
  "glob_m_ovf (run_dir [(''table.txt'', [])]) (pathize [''run.out'']) = []
   \<and> group_unpack (run_dir [(''table.txt'', [])]) [''run.out'']
       = Some (Inr (FloatArray \<lparr>shape = [0], elems = []\<rparr>))"
  by (simp add: ovf_eval)

text \<open>
  Claim C5: for every directory in which no file matches the group pattern, \<open>group_unpack\<close>
  raises a fatal empty-group error before any decode work; it never returns an empty
  series. The code does not: in a directory \<open>run.out\<close> with no file matching \<open>m*.ovf\<close>,
  \<open>group_unpack\<close> raises nothing and returns the empty array, of shape \<open>(0,)\<close>. The guard
  is missing from \<open>group_unpack\<close> only: the other group loader of the package,
  \<open>DomainWall.__init__\<close> in \<open>datautil.py\<close>, collects its files in the same way and raises
  \<open>ValueError('No domain wall files found.')\<close> on an empty list, before it sorts or reads.
\<close>

theorem group_unpack_empty_returns_array:
  "glob_m_ovf empty_fs (pathize [''run.out'']) = []
   \<and> group_unpack empty_fs [''run.out''] = Some (Inr (FloatArray \<lparr>shape = [0], elems = []\<rparr>))"
  by (simp add: ovf_eval)








end
